theory Spec2Isabelle
  imports Complex_Main "HOL-Library.Sublist"
begin

section \<open>JavaScript numbers\<close>

text \<open>
  A JavaScript \<^verbatim>\<open>number\<close> is an IEEE 754 double. A finite double is modelled by the
  real number it denotes, and every arithmetic operation computes the exact result and
  rounds it to the nearest double, ties to the even significand, as the language does.
  So \<open>0.1 + 0.2\<close> is not \<open>0.3\<close> here either.

  \<^item> \<open>roundHalfEven\<close> rounds a real to the nearest integer, a tie to the even one.
  \<^item> \<open>binade x\<close> is the exponent \<open>e\<close> with \<open>2 powi e \<le> \<bar>x\<bar> < 2 powi (e + 1)\<close>, found by
    halving or doubling.
  \<^item> \<open>round64\<close> keeps 53 significant bits; below \<open>2 powi (- 1022)\<close> the spacing stays
    \<open>2 powi (- 1074)\<close> (subnormal numbers).

  Two things are left out. The sign of a zero: the functions below divide only by a
  number that they have found greater than 0, and compare with 0, so they cannot tell
  \<open>-0\<close> from \<open>0\<close>. Overflow: a result of magnitude \<open>2 ^ 1024\<close> or more is Infinity in
  JavaScript and is a large real here; amounts of money stay far below. NaN and the
  infinities otherwise arise only from a division by zero, which is \<^const>\<open>None\<close> (see the
  progress calculators).
\<close>

definition roundHalfEven :: "real \<Rightarrow> int" where
  "roundHalfEven x =
     (let f = \<lfloor>x\<rfloor>; d = x - of_int f
      in if d < 1/2 then f else if d > 1/2 then f + 1 else if even f then f else f + 1)"

function expUp :: "real \<Rightarrow> int" where
  "expUp x = (if 2 \<le> x then expUp (x / 2) + 1 else 0)"
  by pat_completeness auto
termination
proof (relation "measure (\<lambda>x. nat \<lfloor>x\<rfloor>)")
  show "wf (measure (\<lambda>x::real. nat \<lfloor>x\<rfloor>))" by simp
next
  fix x :: real
  assume x: "2 \<le> x"
  have floor_half_less: "\<lfloor>y / 2\<rfloor> < \<lfloor>y\<rfloor>" if y: "1 \<le> y" for y :: real
  proof -
    have "y / 2 < of_int \<lfloor>y\<rfloor>"
    proof (cases "2 \<le> y")
      case True
      have "y - 1 < of_int \<lfloor>y\<rfloor>" by linarith
      with True show ?thesis by linarith
    next
      case False
      have "1 \<le> \<lfloor>y\<rfloor>" using y by linarith
      then have "(1::real) \<le> of_int \<lfloor>y\<rfloor>" by linarith
      with False show ?thesis by linarith
    qed
    then show ?thesis by (simp only: floor_less_iff)
  qed
  from x have "\<lfloor>x / 2\<rfloor> < \<lfloor>x\<rfloor>" by (intro floor_half_less) simp
  moreover have "0 < \<lfloor>x\<rfloor>" using x by linarith
  ultimately show "(x / 2, x) \<in> measure (\<lambda>x. nat \<lfloor>x\<rfloor>)"
    by simp
qed

function expDown :: "real \<Rightarrow> int" where
  "expDown x = (if 0 < x \<and> x < 1 then expDown (2 * x) - 1 else 0)"
  by pat_completeness auto
termination
proof (relation "measure (\<lambda>x. nat \<lfloor>1 / x\<rfloor>)")
  show "wf (measure (\<lambda>x::real. nat \<lfloor>1 / x\<rfloor>))" by simp
next
  fix x :: real
  assume x: "0 < x \<and> x < 1"
  have floor_half_less: "\<lfloor>y / 2\<rfloor> < \<lfloor>y\<rfloor>" if y: "1 \<le> y" for y :: real
  proof -
    have "y / 2 < of_int \<lfloor>y\<rfloor>"
    proof (cases "2 \<le> y")
      case True
      have "y - 1 < of_int \<lfloor>y\<rfloor>" by linarith
      with True show ?thesis by linarith
    next
      case False
      have "1 \<le> \<lfloor>y\<rfloor>" using y by linarith
      then have "(1::real) \<le> of_int \<lfloor>y\<rfloor>" by linarith
      with False show ?thesis by linarith
    qed
    then show ?thesis by (simp only: floor_less_iff)
  qed
  from x have y: "1 \<le> 1 / x" by simp
  then have "\<lfloor>1 / x / 2\<rfloor> < \<lfloor>1 / x\<rfloor>" by (rule floor_half_less)
  moreover have "1 / (2 * x) = 1 / x / 2" by simp
  ultimately have "\<lfloor>1 / (2 * x)\<rfloor> < \<lfloor>1 / x\<rfloor>"
    by (simp only:)
  moreover have "0 < \<lfloor>1 / x\<rfloor>" using y by (simp only: zero_less_floor)
  ultimately show "(2 * x, x) \<in> measure (\<lambda>x. nat \<lfloor>1 / x\<rfloor>)"
    by (simp only: in_measure zless_nat_conj)
qed

definition binade :: "real \<Rightarrow> int" where
  "binade x = (if 1 \<le> \<bar>x\<bar> then expUp \<bar>x\<bar> else expDown \<bar>x\<bar>)"

definition round64 :: "real \<Rightarrow> real" where
  "round64 x =
     (if x = 0 then 0
      else let e = max (binade x) (- 1022);
               q = 2 powi (e - 52)
           in of_int (roundHalfEven (x / q)) * q)"

text \<open>The double that a decimal literal or a parsed decimal input denotes.\<close>

definition toDouble :: "real \<Rightarrow> real" where
  "toDouble x = round64 x"

text \<open>
  The operators \<^verbatim>\<open>+\<close>, \<^verbatim>\<open>-\<close>, \<^verbatim>\<open>*\<close> and, for a divisor that is not zero, \<^verbatim>\<open>/\<close>.
\<close>

definition fadd :: "real \<Rightarrow> real \<Rightarrow> real" where
  "fadd a b = round64 (a + b)"


definition fmul :: "real \<Rightarrow> real \<Rightarrow> real" where
  "fmul a b = round64 (a * b)"

definition fdiv :: "real \<Rightarrow> real \<Rightarrow> real" where
  "fdiv a b = round64 (a / b)"

text \<open>
  The sum of a list of numbers as \<^verbatim>\<open>reduce((s, x) => s + x, 0)\<close> computes it: from 0,
  left to right, each addition rounded.
\<close>

definition doubleSum :: "real list \<Rightarrow> real" where
  "doubleSum xs = foldl fadd 0 xs"

text \<open>
  A whole amount: a non-negative integer. Sums of whole amounts below \<open>2 ^ 53\<close> are exact
  in doubles.
\<close>

definition isWhole :: "real \<Rightarrow> bool" where
  "isWhole x = (if x < 0 then False else of_int \<lfloor>x\<rfloor> = x)"

section \<open>Data model (src/types)\<close>

text \<open>
  The TypeScript type \<^verbatim>\<open>ExpenseCategory\<close> is a closed union of thirteen string
  literals; it is the program's enumeration of categories. A number field holds a finite
  double (a \<^typ>\<open>real\<close>, see above): amounts, limits and targets come from validated form
  input and from stored records. A JavaScript string is a \<^typ>\<open>string\<close>.

  Field names that several interfaces share (\<^verbatim>\<open>id\<close>, \<^verbatim>\<open>userId\<close>, \<^verbatim>\<open>month\<close>,
  \<^verbatim>\<open>categories\<close>) or that clash with a HOL constant (\<^verbatim>\<open>total\<close>) carry a suffix
  naming the interface.
\<close>

datatype ExpenseCategory =
    housing
  | transportation
  | food
  | utilities
  | insurance
  | healthcare
  | entertainment
  | personal
  | education
  | debt
  | savings
  | gifts
  | other

record Expense =
  id_e :: string
  amount :: real
  description :: string
  category :: ExpenseCategory
  date :: string
  createdAt :: string
  userId_e :: string

text \<open>
  A sparse object \<^verbatim>\<open>{ [key in ExpenseCategory]?: number }\<close> is a partial map: an absent
  key reads as \<^verbatim>\<open>undefined\<close>, here \<^const>\<open>None\<close>. The default budget that
  \<^verbatim>\<open>getCurrentBudget\<close> builds has no \<^verbatim>\<open>userId\<close>, so that field is optional.
\<close>

type_synonym CategoryAmounts = "ExpenseCategory \<rightharpoonup> real"

record Budget =
  id_b :: string
  month :: string
  categories :: CategoryAmounts
  totalBudget :: real
  userId_b :: "string option"

record SavingsGoal =
  id_g :: string
  name_g :: string
  targetAmount :: real
  currentAmount :: real
  startDate :: string
  targetDate :: string
  category_g :: "string option"
  icon :: "string option"
  userId_g :: string

record MonthlyTotal =
  month_mt :: string
  total_mt :: real
  categories_mt :: CategoryAmounts



section \<open>Aggregation functions (src/utils/helpers.ts)\<close>

text \<open>
  \<^verbatim>\<open>String.prototype.startsWith(search)\<close> with the default position 0: the search
  string must fit, and the first \<^verbatim>\<open>search.length\<close> characters must be the search string.
\<close>

definition startsWith :: "string \<Rightarrow> string \<Rightarrow> bool" where
  "startsWith s search =
     (if length search > length s then False else take (length search) s = search)"

text \<open>\<^verbatim>\<open>expenses.filter(expense => expense.date.startsWith(month))\<close>\<close>

definition filterExpensesByMonth :: "Expense list \<Rightarrow> string \<Rightarrow> Expense list" where
  "filterExpensesByMonth es m = filter (\<lambda>expense. startsWith (date expense) m) es"

text \<open>\<^verbatim>\<open>.reduce((total, expense) => total + expense.amount, 0)\<close>\<close>

definition sumAmounts :: "Expense list \<Rightarrow> real" where
  "sumAmounts es = foldl (\<lambda>total expense. fadd total (amount expense)) 0 es"

definition calculateMonthlyTotal :: "Expense list \<Rightarrow> string \<Rightarrow> real" where
  "calculateMonthlyTotal es m = sumAmounts (filterExpensesByMonth es m)"

text \<open>
  The body of the \<^verbatim>\<open>forEach\<close> callback that \<^verbatim>\<open>calculateExpensesByCategory\<close> and
  \<^verbatim>\<open>getLastSixMonthsSummary\<close> share word for word:
  \<^verbatim>\<open>if (!result[c]) { result[c] = 0; }  result[c]! += expense.amount;\<close>
  The test \<^verbatim>\<open>!result[c]\<close> holds for an absent key and also for a stored 0.
\<close>

definition falsy :: "real option \<Rightarrow> bool" where
  "falsy v = (case v of None \<Rightarrow> True | Some x \<Rightarrow> x = 0)"

definition addToCategory :: "CategoryAmounts \<Rightarrow> Expense \<Rightarrow> CategoryAmounts" where
  "addToCategory result expense =
     (let c = category expense;
          result1 = (if falsy (result c) then result(c \<mapsto> 0) else result)
      in case result1 c of
           Some v \<Rightarrow> result1(c \<mapsto> fadd v (amount expense))
         | None \<Rightarrow> result1)"

definition groupByCategory :: "Expense list \<Rightarrow> CategoryAmounts" where
  "groupByCategory es = foldl addToCategory Map.empty es"

definition calculateExpensesByCategory :: "Expense list \<Rightarrow> string \<Rightarrow> CategoryAmounts" where
  "calculateExpensesByCategory es m = groupByCategory (filterExpensesByMonth es m)"

text \<open>A collection whose amounts are whole and sum to less than \<open>2 ^ 53\<close>.\<close>

definition wholeAmounts :: "Expense list \<Rightarrow> bool" where
  "wholeAmounts es =
     (if list_all (\<lambda>e. isWhole (amount e)) es then sum_list (map amount es) < 2 ^ 53 else False)"

section \<open>Progress calculators\<close>

text \<open>
  JavaScript's \<^verbatim>\<open>/\<close> never raises: a zero divisor yields Infinity or NaN. Neither is
  a real number, so the quotient is \<^const>\<open>None\<close> there, and a progress value is a
  \<^typ>\<open>real option\<close> that is \<^const>\<open>None\<close> exactly when a division by zero happened.
  \<open>percent a b\<close> is the expression \<^verbatim>\<open>(a / b) * 100\<close>: the quotient is rounded, then the
  product.
\<close>

definition jsDivide :: "real \<Rightarrow> real \<Rightarrow> real option" where
  "jsDivide a b = (if b = 0 then None else Some (fdiv a b))"

definition percent :: "real \<Rightarrow> real \<Rightarrow> real option" where
  "percent a b = map_option (\<lambda>q. fmul q 100) (jsDivide a b)"

definition calculateBudgetProgress :: "Budget \<Rightarrow> Expense list \<Rightarrow> real option" where
  "calculateBudgetProgress budget es =
     (let monthlyTotal = calculateMonthlyTotal es (month budget)
      in if totalBudget budget > 0 then percent monthlyTotal (totalBudget budget) else Some 0)"

text \<open>\<^verbatim>\<open>budget.categories[category] || 0\<close>: an absent limit and a limit of 0 both give 0.\<close>

definition calculateCategoryBudgetProgress ::
  "Budget \<Rightarrow> Expense list \<Rightarrow> ExpenseCategory \<Rightarrow> real option" where
  "calculateCategoryBudgetProgress budget es c =
     (let categoryBudget = (case categories budget c of None \<Rightarrow> 0 | Some v \<Rightarrow> v);
          categoryExpenses =
            sumAmounts (filter (\<lambda>e. category e = c) (filterExpensesByMonth es (month budget)))
      in if categoryBudget > 0 then percent categoryExpenses categoryBudget else Some 0)"

definition calculateSavingsProgress :: "SavingsGoal \<Rightarrow> real option" where
  "calculateSavingsProgress goal =
     (if targetAmount goal > 0 then percent (currentAmount goal) (targetAmount goal) else Some 0)"

section \<open>Budget of the current month\<close>

text \<open>
  \<^verbatim>\<open>budgets.find(b => b.month === currentMonth)\<close>, and a default budget when there is
  none. The default's id comes from \<^verbatim>\<open>crypto.randomUUID()\<close>: the value drawn is the
  parameter \<open>uuid\<close>; the argument \<^verbatim>\<open>currentMonth\<close> is \<open>monthKey\<close>.
\<close>

definition getCurrentBudget :: "Budget list \<Rightarrow> string \<Rightarrow> string \<Rightarrow> Budget" where
  "getCurrentBudget bs monthKey uuid =
     (case find (\<lambda>b. month b = monthKey) bs of
        Some existingBudget \<Rightarrow> existingBudget
      | None \<Rightarrow>
          \<lparr>id_b = uuid, month = monthKey, categories = Map.empty, totalBudget = 0,
           userId_b = None\<rparr>)"

section \<open>Rolling summary\<close>

text \<open>
  \<^verbatim>\<open>getLastSixMonthsSummary\<close> reads the system clock (\<^verbatim>\<open>new Date()\<close>); the reading is
  the parameter \<open>currentDate\<close>. Of a \<^verbatim>\<open>Date\<close> only the local calendar date matters
  here: \<^verbatim>\<open>getFullYear()\<close>, \<^verbatim>\<open>getMonth()\<close> (0 for January to 11 for December) and
  \<^verbatim>\<open>getDate()\<close> (the day of the month); \<^verbatim>\<open>setMonth\<close> keeps the time of day.
\<close>

record JSDate =
  getFullYear :: int
  getMonth :: int
  getDate :: int

definition isLeapYear :: "int \<Rightarrow> bool" where
  "isLeapYear y = (if y mod 4 = 0 then (if y mod 100 = 0 then y mod 400 = 0 else True) else False)"

definition daysInMonth :: "int \<Rightarrow> int \<Rightarrow> int" where
  "daysInMonth y m =
     (if m = 1 then (if isLeapYear y then 29 else 28)
      else if m = 3 then 30 else if m = 5 then 30 else if m = 8 then 30 else if m = 10 then 30
      else 31)"

text \<open>A date the clock can show: a month index from 0 to 11 and a day that the month has.\<close>

definition validDate :: "JSDate \<Rightarrow> bool" where
  "validDate d =
     (if getMonth d < 0 then False else if getMonth d > 11 then False
      else if getDate d < 1 then False else getDate d \<le> daysInMonth (getFullYear d) (getMonth d))"

text \<open>
  \<^verbatim>\<open>Date.prototype.setMonth(m)\<close> (ECMAScript MakeDay): the month index may be any integer,
  its year carry is \<open>m div 12\<close> rounded down and the month is \<open>m mod 12\<close>; the day of the
  month is kept and counted on from the first of that month, so a day that the month does
  not have runs over into the following month (31 February is 2 or 3 March). A day of the
  month is at most 31 and a month has at least 28 days, so the run-over ends in the month
  that follows.
\<close>

definition setMonth :: "JSDate \<Rightarrow> int \<Rightarrow> JSDate" where
  "setMonth d m =
     (let ym = getFullYear d + m div 12;
          mn = m mod 12;
          dim = daysInMonth ym mn
      in if getDate d \<le> dim then \<lparr>getFullYear = ym, getMonth = mn, getDate = getDate d\<rparr>
         else if mn = 11 then \<lparr>getFullYear = ym + 1, getMonth = 0, getDate = getDate d - dim\<rparr>
         else \<lparr>getFullYear = ym, getMonth = mn + 1, getDate = getDate d - dim\<rparr>)"

text \<open>
  date-fns \<^verbatim>\<open>format(date, 'yyyy-MM')\<close>: the year (for a year before 1, one minus the
  year) and the month number, padded with zeros to four and two digits.
\<close>

definition digitChar :: "nat \<Rightarrow> char" where
  "digitChar n = ''0123456789'' ! n"

fun digits :: "nat \<Rightarrow> string" where
  "digits n = (if n < 10 then [digitChar n] else digits (n div 10) @ [digitChar (n mod 10)])"

definition addLeadingZeros :: "nat \<Rightarrow> nat \<Rightarrow> string" where
  "addLeadingZeros n targetLength =
     replicate (targetLength - length (digits n)) (CHR ''0'') @ digits n"

definition formatYearMonth :: "JSDate \<Rightarrow> string" where
  "formatYearMonth d =
     (let signedYear = getFullYear d;
          y = (if signedYear > 0 then signedYear else 1 - signedYear)
      in addLeadingZeros (nat y) 4 @ ''-'' @ addLeadingZeros (nat (getMonth d + 1)) 2)"

text \<open>One round of the loop \<^verbatim>\<open>for (let i = 0; i < 6; i++)\<close>: the entry pushed for offset i.\<close>

definition summaryEntry :: "Expense list \<Rightarrow> JSDate \<Rightarrow> int \<Rightarrow> MonthlyTotal" where
  "summaryEntry es currentDate i =
     (let d = setMonth currentDate (getMonth currentDate - i);
          monthStr = formatYearMonth d;
          monthlyExpenses = filterExpensesByMonth es monthStr;
          total = sumAmounts monthlyExpenses;
          cats = groupByCategory monthlyExpenses
      in \<lparr>month_mt = monthStr, total_mt = total, categories_mt = cats\<rparr>)"

text \<open>The month key that the round for offset i computes.\<close>

definition offsetKey :: "JSDate \<Rightarrow> int \<Rightarrow> string" where
  "offsetKey d i = formatYearMonth (setMonth d (getMonth d - i))"

function summaryLoop ::
  "Expense list \<Rightarrow> JSDate \<Rightarrow> nat \<Rightarrow> MonthlyTotal list \<Rightarrow> MonthlyTotal list" where
  "summaryLoop es currentDate i result =
     (if i < 6
      then summaryLoop es currentDate (i + 1) (result @ [summaryEntry es currentDate (int i)])
      else result)"
  by pat_completeness auto
termination
  by (relation "measure (\<lambda>(es, currentDate, i, result). 6 - i)") auto

definition getLastSixMonthsSummary :: "Expense list \<Rightarrow> JSDate \<Rightarrow> MonthlyTotal list" where
  "getLastSixMonthsSummary es currentDate = rev (summaryLoop es currentDate 0 [])"

text \<open>
  The calendar's own arithmetic, for comparison: the month that lies \<open>k\<close> months before
  month \<open>m\<close> of year \<open>y\<close>, counting months from year 0, and its month key.
\<close>

definition calendarMonthBefore :: "int \<Rightarrow> int \<Rightarrow> int \<Rightarrow> JSDate" where
  "calendarMonthBefore y m k =
     \<lparr>getFullYear = (12 * y + m - k) div 12, getMonth = (12 * y + m - k) mod 12, getDate = 1\<rparr>"

definition expectedMonthKeys :: "JSDate \<Rightarrow> string list" where
  "expectedMonthKeys now =
     map (\<lambda>k. formatYearMonth (calendarMonthBefore (getFullYear now) (getMonth now) k))
       [5, 4, 3, 2, 1, 0]"

section \<open>Category taxonomy\<close>

definition getCategories :: "ExpenseCategory list" where
  "getCategories =
     [housing, transportation, food, utilities, insurance, healthcare, entertainment,
      personal, education, debt, savings, gifts, other]"

text \<open>The string that each member of the union is at run time.\<close>

fun categoryId :: "ExpenseCategory \<Rightarrow> string" where
  "categoryId housing = ''housing''"
| "categoryId transportation = ''transportation''"
| "categoryId food = ''food''"
| "categoryId utilities = ''utilities''"
| "categoryId insurance = ''insurance''"
| "categoryId healthcare = ''healthcare''"
| "categoryId entertainment = ''entertainment''"
| "categoryId personal = ''personal''"
| "categoryId education = ''education''"
| "categoryId debt = ''debt''"
| "categoryId savings = ''savings''"
| "categoryId gifts = ''gifts''"
| "categoryId other = ''other''"

text \<open>
  The two lookup tables are object literals with string values. Reading \<^verbatim>\<open>obj[key]\<close>
  gives the object's own property when it has one; otherwise the lookup goes on to
  \<^verbatim>\<open>Object.prototype\<close>, whose members every object literal inherits (the function
  \<^verbatim>\<open>Object\<close> for the key \<^verbatim>\<open>constructor\<close>, the method \<^verbatim>\<open>toString\<close>, and so on);
  only then is the result \<^verbatim>\<open>undefined\<close>. \<open>objectPrototypeKeys\<close> lists the member names
  of \<^verbatim>\<open>Object.prototype\<close> in ECMAScript, the legacy ones of its Annex B included; a
  member read through the prototype is a function or an object, never a string.
\<close>

datatype JSValue = Undefined | JSString string | PrototypeMember string

definition objectPrototypeKeys :: "string list" where
  "objectPrototypeKeys =
     [''constructor'', ''hasOwnProperty'', ''isPrototypeOf'', ''propertyIsEnumerable'',
      ''toLocaleString'', ''toString'', ''valueOf'', ''__proto__'', ''__defineGetter__'',
      ''__defineSetter__'', ''__lookupGetter__'', ''__lookupSetter__'']"

definition getProperty :: "(string \<times> string) list \<Rightarrow> string \<Rightarrow> JSValue" where
  "getProperty obj key =
     (case map_of obj key of
        Some v \<Rightarrow> JSString v
      | None \<Rightarrow> if key \<in> set objectPrototypeKeys then PrototypeMember key else Undefined)"

fun truthy :: "JSValue \<Rightarrow> bool" where
  "truthy Undefined = False"
| "truthy (JSString s) = (s \<noteq> [])"
| "truthy (PrototypeMember k) = True"

definition categoryMap :: "(string \<times> string) list" where
  "categoryMap =
     [(''housing'', ''Housing''),
      (''transportation'', ''Transportation''),
      (''food'', ''Food & Dining''),
      (''utilities'', ''Utilities''),
      (''insurance'', ''Insurance''),
      (''healthcare'', ''Healthcare''),
      (''entertainment'', ''Entertainment''),
      (''personal'', ''Personal''),
      (''education'', ''Education''),
      (''debt'', ''Debt Payments''),
      (''savings'', ''Savings''),
      (''gifts'', ''Gifts & Donations''),
      (''other'', ''Other'')]"

text \<open>\<^verbatim>\<open>categoryMap[category] || category\<close>, for whatever string arrives.\<close>

definition getPrettyCategoryName :: "string \<Rightarrow> JSValue" where
  "getPrettyCategoryName c =
     (let v = getProperty categoryMap c in if truthy v then v else JSString c)"

definition getCategoryColors :: "(string \<times> string) list" where
  "getCategoryColors =
     [(''housing'', ''#0D9488''),
      (''transportation'', ''#8B5CF6''),
      (''food'', ''#22c55e''),
      (''utilities'', ''#f59e0b''),
      (''healthcare'', ''#ef4444''),
      (''insurance'', ''#3b82f6''),
      (''entertainment'', ''#ec4899''),
      (''personal'', ''#8b5cf6''),
      (''education'', ''#14b8a6''),
      (''debt'', ''#f43f5e''),
      (''savings'', ''#06b6d4''),
      (''gifts'', ''#a855f7''),
      (''other'', ''#6b7280'')]"

text \<open>
  The sum of the values of a per-category object, over all categories; a category that is
  not a key of the object adds nothing.
\<close>

definition valueOr0 :: "real option \<Rightarrow> real" where
  "valueOr0 v = (case v of None \<Rightarrow> 0 | Some x \<Rightarrow> x)"

definition sumOfValues :: "CategoryAmounts \<Rightarrow> real" where
  "sumOfValues m = doubleSum (map (\<lambda>c. valueOr0 (m c)) getCategories)"

section \<open>Funding a savings goal\<close>




section \<open>The core functions on the heap\<close>

text \<open>
  The definitions above take the records themselves. In JavaScript an array and an object
  are passed by reference, and a function could write to what it was given. To say what
  the functions of \<^verbatim>\<open>helpers.ts\<close> do to their arguments, this section runs them once more
  on an explicit heap: a world is the list of the objects allocated so far, an object's
  reference is its index, and the system clock (\<^verbatim>\<open>new Date()\<close>) is part of the world.
  Every function takes references and a world and returns its result with the world it
  leaves, or \<^const>\<open>None\<close> when a reference does not hold an object of the kind that the
  parameter's type promises.

  Numbers, strings and dates are values. A budget's \<^verbatim>\<open>categories\<close> and an entry's
  \<^verbatim>\<open>categories\<close> are part of the budget and of the entry: the functions read the first
  and, once an entry is pushed, write neither. The copy \<^verbatim>\<open>new Date(currentDate)\<close> that
  \<^verbatim>\<open>setMonth\<close> changes is a value of the round.
\<close>

datatype JSObject =
    ExpenseObject Expense
  | BudgetObject Budget
  | GoalObject SavingsGoal
  | AmountsObject CategoryAmounts
  | MonthlyTotalObject MonthlyTotal
  | ArrayObject "nat list"

record World =
  heap :: "JSObject list"
  clock :: JSDate

definition objectAt :: "World \<Rightarrow> nat \<Rightarrow> JSObject option" where
  "objectAt w r = (if r < length (heap w) then Some (heap w ! r) else None)"

definition alloc :: "JSObject \<Rightarrow> World \<Rightarrow> nat \<times> World" where
  "alloc obj w = (length (heap w), w\<lparr>heap := heap w @ [obj]\<rparr>)"

definition store :: "nat \<Rightarrow> JSObject \<Rightarrow> World \<Rightarrow> World" where
  "store r obj w = w\<lparr>heap := (heap w)[r := obj]\<rparr>"

definition expenseAt :: "World \<Rightarrow> nat \<Rightarrow> Expense option" where
  "expenseAt w r = (case objectAt w r of Some (ExpenseObject e) \<Rightarrow> Some e | _ \<Rightarrow> None)"

definition budgetAt :: "World \<Rightarrow> nat \<Rightarrow> Budget option" where
  "budgetAt w r = (case objectAt w r of Some (BudgetObject b) \<Rightarrow> Some b | _ \<Rightarrow> None)"

definition goalAt :: "World \<Rightarrow> nat \<Rightarrow> SavingsGoal option" where
  "goalAt w r = (case objectAt w r of Some (GoalObject g) \<Rightarrow> Some g | _ \<Rightarrow> None)"

definition amountsAt :: "World \<Rightarrow> nat \<Rightarrow> CategoryAmounts option" where
  "amountsAt w r = (case objectAt w r of Some (AmountsObject m) \<Rightarrow> Some m | _ \<Rightarrow> None)"

definition monthlyTotalAt :: "World \<Rightarrow> nat \<Rightarrow> MonthlyTotal option" where
  "monthlyTotalAt w r = (case objectAt w r of Some (MonthlyTotalObject t) \<Rightarrow> Some t | _ \<Rightarrow> None)"

definition arrayAt :: "World \<Rightarrow> nat \<Rightarrow> nat list option" where
  "arrayAt w r = (case objectAt w r of Some (ArrayObject refs) \<Rightarrow> Some refs | _ \<Rightarrow> None)"

definition expensesAt :: "World \<Rightarrow> nat \<Rightarrow> Expense list option" where
  "expensesAt w r =
     (case arrayAt w r of None \<Rightarrow> None | Some refs \<Rightarrow> those (map (expenseAt w) refs))"

definition monthlyTotalsAt :: "World \<Rightarrow> nat \<Rightarrow> MonthlyTotal list option" where
  "monthlyTotalsAt w r =
     (case arrayAt w r of None \<Rightarrow> None | Some refs \<Rightarrow> those (map (monthlyTotalAt w) refs))"

text \<open>
  \<^verbatim>\<open>Array.prototype.filter\<close>, \<^verbatim>\<open>reduce\<close>, \<^verbatim>\<open>forEach\<close>, \<^verbatim>\<open>push\<close> and \<^verbatim>\<open>reverse\<close> on arrays
  of expenses: \<^verbatim>\<open>filter\<close> allocates a new array of the same references, \<^verbatim>\<open>push\<close> and
  \<^verbatim>\<open>reverse\<close> write to the array in place, and the callback of \<^verbatim>\<open>forEach\<close> may write
  to the world.
\<close>

fun filterRefs :: "World \<Rightarrow> (Expense \<Rightarrow> bool) \<Rightarrow> nat list \<Rightarrow> nat list option" where
  "filterRefs w p [] = Some []"
| "filterRefs w p (r # rs) =
     (case expenseAt w r of
        None \<Rightarrow> None
      | Some e \<Rightarrow>
          (case filterRefs w p rs of
             None \<Rightarrow> None
           | Some kept \<Rightarrow> Some (if p e then r # kept else kept)))"

definition arrayFilter :: "(Expense \<Rightarrow> bool) \<Rightarrow> nat \<Rightarrow> World \<Rightarrow> (nat \<times> World) option" where
  "arrayFilter p r w =
     (case arrayAt w r of
        None \<Rightarrow> None
      | Some refs \<Rightarrow>
          (case filterRefs w p refs of
             None \<Rightarrow> None
           | Some kept \<Rightarrow> Some (alloc (ArrayObject kept) w)))"

fun reduceRefs :: "World \<Rightarrow> (real \<Rightarrow> Expense \<Rightarrow> real) \<Rightarrow> real \<Rightarrow> nat list \<Rightarrow> real option" where
  "reduceRefs w f acc [] = Some acc"
| "reduceRefs w f acc (r # rs) =
     (case expenseAt w r of None \<Rightarrow> None | Some e \<Rightarrow> reduceRefs w f (f acc e) rs)"

definition arrayReduce :: "(real \<Rightarrow> Expense \<Rightarrow> real) \<Rightarrow> real \<Rightarrow> nat \<Rightarrow> World \<Rightarrow> real option" where
  "arrayReduce f init r w =
     (case arrayAt w r of None \<Rightarrow> None | Some refs \<Rightarrow> reduceRefs w f init refs)"

fun forEachRefs :: "(Expense \<Rightarrow> World \<Rightarrow> World option) \<Rightarrow> nat list \<Rightarrow> World \<Rightarrow> World option" where
  "forEachRefs f [] w = Some w"
| "forEachRefs f (r # rs) w =
     (case expenseAt w r of
        None \<Rightarrow> None
      | Some e \<Rightarrow> (case f e w of None \<Rightarrow> None | Some w' \<Rightarrow> forEachRefs f rs w'))"

definition arrayForEach :: "(Expense \<Rightarrow> World \<Rightarrow> World option) \<Rightarrow> nat \<Rightarrow> World \<Rightarrow> World option" where
  "arrayForEach f r w =
     (case arrayAt w r of None \<Rightarrow> None | Some refs \<Rightarrow> forEachRefs f refs w)"

definition arrayPush :: "nat \<Rightarrow> nat \<Rightarrow> World \<Rightarrow> World option" where
  "arrayPush r x w =
     (case arrayAt w r of
        None \<Rightarrow> None
      | Some refs \<Rightarrow> Some (store r (ArrayObject (refs @ [x])) w))"

definition arrayReverse :: "nat \<Rightarrow> World \<Rightarrow> World option" where
  "arrayReverse r w =
     (case arrayAt w r of
        None \<Rightarrow> None
      | Some refs \<Rightarrow> Some (store r (ArrayObject (rev refs)) w))"

text \<open>The functions of \<^verbatim>\<open>helpers.ts\<close>, statement by statement.\<close>

definition filterExpensesByMonthJS :: "nat \<Rightarrow> string \<Rightarrow> World \<Rightarrow> (nat \<times> World) option" where
  "filterExpensesByMonthJS expensesRef m w =
     arrayFilter (\<lambda>expense. startsWith (date expense) m) expensesRef w"

definition calculateMonthlyTotalJS :: "nat \<Rightarrow> string \<Rightarrow> World \<Rightarrow> (real \<times> World) option" where
  "calculateMonthlyTotalJS expensesRef m w =
     (case filterExpensesByMonthJS expensesRef m w of
        None \<Rightarrow> None
      | Some (filtered, w1) \<Rightarrow>
          (case arrayReduce (\<lambda>total expense. fadd total (amount expense)) 0 filtered w1 of
             None \<Rightarrow> None
           | Some monthTotal \<Rightarrow> Some (monthTotal, w1)))"

text \<open>
  The callback \<^verbatim>\<open>expense => { if (!result[c]) { result[c] = 0; } result[c]! += amount }\<close>
  writes to the object \<^verbatim>\<open>result\<close>.
\<close>

definition addToCategoryJS :: "nat \<Rightarrow> Expense \<Rightarrow> World \<Rightarrow> World option" where
  "addToCategoryJS resultRef expense w =
     (case amountsAt w resultRef of
        None \<Rightarrow> None
      | Some result \<Rightarrow> Some (store resultRef (AmountsObject (addToCategory result expense)) w))"

definition calculateExpensesByCategoryJS :: "nat \<Rightarrow> string \<Rightarrow> World \<Rightarrow> (nat \<times> World) option" where
  "calculateExpensesByCategoryJS expensesRef m w =
     (let (resultRef, w1) = alloc (AmountsObject Map.empty) w
      in case filterExpensesByMonthJS expensesRef m w1 of
           None \<Rightarrow> None
         | Some (filtered, w2) \<Rightarrow>
             (case arrayForEach (addToCategoryJS resultRef) filtered w2 of
                None \<Rightarrow> None
              | Some w3 \<Rightarrow> Some (resultRef, w3)))"

definition calculateBudgetProgressJS ::
  "nat \<Rightarrow> nat \<Rightarrow> World \<Rightarrow> (real option \<times> World) option" where
  "calculateBudgetProgressJS budgetRef expensesRef w =
     (case budgetAt w budgetRef of
        None \<Rightarrow> None
      | Some budget \<Rightarrow>
          (case calculateMonthlyTotalJS expensesRef (month budget) w of
             None \<Rightarrow> None
           | Some (monthlyTotal, w1) \<Rightarrow>
               Some (if totalBudget budget > 0 then percent monthlyTotal (totalBudget budget)
                     else Some 0, w1)))"

definition calculateCategoryBudgetProgressJS ::
  "nat \<Rightarrow> nat \<Rightarrow> ExpenseCategory \<Rightarrow> World \<Rightarrow> (real option \<times> World) option" where
  "calculateCategoryBudgetProgressJS budgetRef expensesRef c w =
     (case budgetAt w budgetRef of
        None \<Rightarrow> None
      | Some budget \<Rightarrow>
          let categoryBudget = (case categories budget c of None \<Rightarrow> 0 | Some v \<Rightarrow> v)
          in case filterExpensesByMonthJS expensesRef (month budget) w of
               None \<Rightarrow> None
             | Some (ofMonth, w1) \<Rightarrow>
                 (case arrayFilter (\<lambda>e. category e = c) ofMonth w1 of
                    None \<Rightarrow> None
                  | Some (ofCategory, w2) \<Rightarrow>
                      (case arrayReduce (\<lambda>total expense. fadd total (amount expense)) 0
                              ofCategory w2 of
                         None \<Rightarrow> None
                       | Some categoryExpenses \<Rightarrow>
                           Some (if categoryBudget > 0
                                 then percent categoryExpenses categoryBudget
                                 else Some 0, w2))))"

definition calculateSavingsProgressJS :: "nat \<Rightarrow> World \<Rightarrow> (real option \<times> World) option" where
  "calculateSavingsProgressJS goalRef w =
     (case goalAt w goalRef of
        None \<Rightarrow> None
      | Some goal \<Rightarrow>
          Some (if targetAmount goal > 0 then percent (currentAmount goal) (targetAmount goal)
                else Some 0, w))"

definition summaryRoundJS :: "nat \<Rightarrow> nat \<Rightarrow> JSDate \<Rightarrow> int \<Rightarrow> World \<Rightarrow> World option" where
  "summaryRoundJS expensesRef resultRef currentDate i w =
     (let d = setMonth currentDate (getMonth currentDate - i);
          monthStr = formatYearMonth d
      in case filterExpensesByMonthJS expensesRef monthStr w of
           None \<Rightarrow> None
         | Some (monthlyExpenses, w1) \<Rightarrow>
             (case arrayReduce (\<lambda>sum exp. fadd sum (amount exp)) 0 monthlyExpenses w1 of
                None \<Rightarrow> None
              | Some monthTotal \<Rightarrow>
                  let (categoriesRef, w2) = alloc (AmountsObject Map.empty) w1
                  in case arrayForEach (addToCategoryJS categoriesRef) monthlyExpenses w2 of
                       None \<Rightarrow> None
                     | Some w3 \<Rightarrow>
                         (case amountsAt w3 categoriesRef of
                            None \<Rightarrow> None
                          | Some cats \<Rightarrow>
                              let (entryRef, w4) =
                                    alloc (MonthlyTotalObject
                                      \<lparr>month_mt = monthStr, total_mt = monthTotal,
                                       categories_mt = cats\<rparr>) w3
                              in arrayPush resultRef entryRef w4)))"

function summaryLoopJS :: "nat \<Rightarrow> nat \<Rightarrow> JSDate \<Rightarrow> nat \<Rightarrow> World \<Rightarrow> World option" where
  "summaryLoopJS expensesRef resultRef currentDate i w =
     (if i < 6
      then (case summaryRoundJS expensesRef resultRef currentDate (int i) w of
              None \<Rightarrow> None
            | Some w' \<Rightarrow> summaryLoopJS expensesRef resultRef currentDate (i + 1) w')
      else Some w)"
  by pat_completeness auto
termination
  by (relation "measure (\<lambda>(expensesRef, resultRef, currentDate, i, w). 6 - i)") auto

definition getLastSixMonthsSummaryJS :: "nat \<Rightarrow> World \<Rightarrow> (nat \<times> World) option" where
  "getLastSixMonthsSummaryJS expensesRef w =
     (let (resultRef, w1) = alloc (ArrayObject []) w;
          currentDate = clock w1
      in case summaryLoopJS expensesRef resultRef currentDate 0 w1 of
           None \<Rightarrow> None
         | Some w2 \<Rightarrow>
             (case arrayReverse resultRef w2 of
                None \<Rightarrow> None
              | Some w3 \<Rightarrow> Some (resultRef, w3)))"

text \<open>
  What a call leaves behind: \<open>unchanged w w'\<close> says that the clock of \<open>w'\<close> is the clock of
  \<open>w\<close> and that every object of \<open>w\<close> is in \<open>w'\<close> at the same reference with the same
  contents (\<open>w'\<close> may hold new objects after them). \<open>preserves w outcome\<close> says that the
  call returned and left the world so.
\<close>

definition unchanged :: "World \<Rightarrow> World \<Rightarrow> bool" where
  "unchanged w w' =
     (if clock w' = clock w then take (length (heap w)) (heap w') = heap w else False)"

definition preserves :: "World \<Rightarrow> ('a \<times> World) option \<Rightarrow> bool" where
  "preserves w outcome = (case outcome of None \<Rightarrow> False | Some (res, w') \<Rightarrow> unchanged w w')"

text \<open>What a call returned: the value, or the contents of the object returned.\<close>

definition valueOf :: "('a \<times> World) option \<Rightarrow> 'a option" where
  "valueOf outcome = map_option fst outcome"

definition expensesOf :: "(nat \<times> World) option \<Rightarrow> Expense list option" where
  "expensesOf outcome =
     (case outcome of None \<Rightarrow> None | Some (r, w') \<Rightarrow> expensesAt w' r)"

definition amountsOf :: "(nat \<times> World) option \<Rightarrow> CategoryAmounts option" where
  "amountsOf outcome =
     (case outcome of None \<Rightarrow> None | Some (r, w') \<Rightarrow> amountsAt w' r)"

definition monthlyTotalsOf :: "(nat \<times> World) option \<Rightarrow> MonthlyTotal list option" where
  "monthlyTotalsOf outcome =
     (case outcome of None \<Rightarrow> None | Some (r, w') \<Rightarrow> monthlyTotalsAt w' r)"

section \<open>Sample data\<close>

definition sampleExpense :: "real \<Rightarrow> ExpenseCategory \<Rightarrow> string \<Rightarrow> Expense" where
  "sampleExpense a c d =
     \<lparr>id_e = [], amount = a, description = [], category = c, date = d, createdAt = [],
      userId_e = ''u1''\<rparr>"

definition juneExpenses :: "Expense list" where
  "juneExpenses =
     [sampleExpense 100 food ''2024-06-01'',
      sampleExpense 50 food ''2024-06-15'',
      sampleExpense 30 housing ''2024-06-02'']"

text \<open>The June expenses among expenses of May and July.\<close>

definition mixedExpenses :: "Expense list" where
  "mixedExpenses =
     [sampleExpense 70 food ''2024-05-31'',
      sampleExpense 100 food ''2024-06-01'',
      sampleExpense 50 food ''2024-06-15'',
      sampleExpense 20 housing ''2024-07-01'',
      sampleExpense 30 housing ''2024-06-02'']"

text \<open>
  Amounts in cents: \<open>cents n\<close> is the double that the decimal with \<open>n\<close> hundredths
  denotes (\<open>cents 6\<close> is the number 0.06), and \<open>sixCentsUp\<close> is the double that follows
  0.06, which prints as 0.060000000000000005.
\<close>

definition cents :: "int \<Rightarrow> real" where
  "cents n = toDouble (of_int n / 100)"

definition sixCentsUp :: real where
  "sixCentsUp = cents 6 + 1 / 2 ^ 57"

definition centExpenses :: "Expense list" where
  "centExpenses =
     [sampleExpense (cents 1) food ''2024-06-01'',
      sampleExpense (cents 1) housing ''2024-06-02'',
      sampleExpense (cents 4) food ''2024-06-03'',
      sampleExpense (cents 7) gifts ''2024-05-03'']"

definition centExpensesMarch :: "Expense list" where
  "centExpensesMarch =
     [sampleExpense (cents 1) food ''2024-03-01'',
      sampleExpense (cents 1) housing ''2024-03-02'',
      sampleExpense (cents 7) gifts ''2024-02-03'',
      sampleExpense (cents 4) food ''2024-03-03'']"

text \<open>An expense of 50 for food in June, among an expense of May and one for housing.\<close>

definition foodExpenses :: "Expense list" where
  "foodExpenses =
     [sampleExpense 70 food ''2024-05-31'',
      sampleExpense 50 food ''2024-06-20'',
      sampleExpense 30 housing ''2024-06-02'']"

definition foodBudget :: Budget where
  "foodBudget =
     \<lparr>id_b = ''b1'', month = ''2024-06'', categories = [food \<mapsto> 200], totalBudget = 400,
      userId_b = Some ''u1''\<rparr>"

definition sampleGoal :: SavingsGoal where
  "sampleGoal =
     \<lparr>id_g = ''g1'', name_g = ''Holiday'', targetAmount = 100, currentAmount = 80,
      startDate = ''2024-01-01'', targetDate = ''2024-12-31'', category_g = None, icon = None,
      userId_g = ''u1''\<rparr>"




definition march31 :: JSDate where
  "march31 = \<lparr>getFullYear = 2024, getMonth = 2, getDate = 31\<rparr>"

definition march15 :: JSDate where
  "march15 = \<lparr>getFullYear = 2024, getMonth = 2, getDate = 15\<rparr>"

definition april15 :: JSDate where
  "april15 = \<lparr>getFullYear = 2024, getMonth = 3, getDate = 15\<rparr>"

definition februaryExpenses :: "Expense list" where
  "februaryExpenses = [sampleExpense 40 food ''2024-02-10'']"

text \<open>Expenses of January, February and March 2024.\<close>

definition winterExpenses :: "Expense list" where
  "winterExpenses =
     [sampleExpense 15 utilities ''2024-01-20'',
      sampleExpense 40 food ''2024-02-10'',
      sampleExpense 25 housing ''2024-02-11'',
      sampleExpense 5 food ''2024-02-28'',
      sampleExpense 60 gifts ''2024-03-01'']"

text \<open>Two worlds that hold the same records at different references.\<close>

definition sampleWorld :: "JSDate \<Rightarrow> World" where
  "sampleWorld now =
     \<lparr>heap = map ExpenseObject foodExpenses
               @ [ArrayObject [0, 1, 2], BudgetObject foodBudget, GoalObject sampleGoal],
      clock = now\<rparr>"

definition otherWorld :: "JSDate \<Rightarrow> World" where
  "otherWorld now =
     \<lparr>heap = [GoalObject sampleGoal, BudgetObject foodBudget, ArrayObject [3, 4, 5]]
               @ map ExpenseObject foodExpenses,
      clock = now\<rparr>"

definition march20 :: JSDate where
  "march20 = \<lparr>getFullYear = 2024, getMonth = 2, getDate = 20\<rparr>"

section \<open>Rounding to a double\<close>

declare expUp.simps [simp del]
declare expDown.simps [simp del]

lemma expUp_bounds: "1 \<le> x \<Longrightarrow> 2 powi (expUp x) \<le> x \<and> x < 2 powi (expUp x + 1)"
proof (induction x rule: expUp.induct)
  case (1 x)
  show ?case
  proof (cases "2 \<le> x")
    case True
    then have "1 \<le> x / 2" by simp
    with 1 True have IH: "2 powi (expUp (x / 2)) \<le> x / 2 \<and> x / 2 < 2 powi (expUp (x / 2) + 1)"
      by blast
    have e: "expUp x = expUp (x / 2) + 1"
      using True by (subst expUp.simps) simp
    have "2 powi (expUp (x / 2) + 1) = 2 powi (expUp (x / 2)) * (2::real)"
      by (simp add: power_int_add)
    moreover have "2 powi (expUp (x / 2) + 1 + 1) = 2 powi (expUp (x / 2) + 1) * (2::real)"
      by (simp add: power_int_add)
    ultimately show ?thesis
      using IH unfolding e by linarith
  next
    case False
    then have "expUp x = 0" by (subst expUp.simps) simp
    with False 1 show ?thesis by simp
  qed
qed

lemma expDown_bounds: "0 < x \<Longrightarrow> x < 1 \<Longrightarrow> 2 powi (expDown x) \<le> x \<and> x < 2 powi (expDown x + 1)"
proof (induction x rule: expDown.induct)
  case (1 x)
  have e: "expDown x = expDown (2 * x) - 1"
    using 1 by (subst expDown.simps) simp
  show ?case
  proof (cases "2 * x < 1")
    case True
    with 1 have IH: "2 powi (expDown (2 * x)) \<le> 2 * x \<and> 2 * x < 2 powi (expDown (2 * x) + 1)"
      by simp
    have "2 powi (expDown (2 * x)) = 2 powi (expDown (2 * x) - 1) * (2::real)"
      by (simp add: power_int_diff)
    moreover have "2 powi (expDown (2 * x) + 1) = 2 powi (expDown (2 * x)) * (2::real)"
      by (simp add: power_int_add)
    ultimately show ?thesis
      using IH unfolding e by simp
  next
    case False
    then have "expDown (2 * x) = 0" by (subst expDown.simps) simp
    with False 1 show ?thesis unfolding e by (simp add: power_int_minus)
  qed
qed

lemma binade_bounds:
  assumes "x \<noteq> 0"
  shows "2 powi (binade x) \<le> \<bar>x\<bar>" and "\<bar>x\<bar> < 2 powi (binade x + 1)"
  using assms expUp_bounds [of "\<bar>x\<bar>"] expDown_bounds [of "\<bar>x\<bar>"]
  by (auto simp: binade_def)

lemma two_powi_less_cancel: "(2::real) powi a < 2 powi b \<Longrightarrow> a < b"
proof (rule ccontr)
  assume less: "(2::real) powi a < 2 powi b" and "\<not> a < b"
  then have "b \<le> a" by simp
  then have "(2::real) powi b \<le> 2 powi a" by (intro power_int_increasing) simp_all
  with less show False by simp
qed

lemma binade_eqI:
  assumes "2 powi k \<le> \<bar>x\<bar>" and "\<bar>x\<bar> < 2 powi (k + 1)"
  shows "binade x = k"
proof -
  have "0 < (2::real) powi k" by simp
  with assms(1) have "0 < \<bar>x\<bar>" by linarith
  then have nz: "x \<noteq> 0" by simp
  note b = binade_bounds [OF nz]
  have "2 powi k < (2::real) powi (binade x + 1)" using assms(1) b(2) by linarith
  then have "k < binade x + 1" by (rule two_powi_less_cancel)
  moreover have "2 powi (binade x) < (2::real) powi (k + 1)" using assms(2) b(1) by linarith
  then have "binade x < k + 1" by (rule two_powi_less_cancel)
  ultimately show ?thesis by linarith
qed


lemma roundHalfEven_of_int [simp]: "roundHalfEven (of_int j) = j"
  by (simp add: roundHalfEven_def)

lemma round64_normal:
  assumes "2 powi k \<le> \<bar>x\<bar>" and "\<bar>x\<bar> < 2 powi (k + 1)" and "- 1022 \<le> k"
  shows "round64 x = of_int (roundHalfEven (x / 2 powi (k - 52))) * 2 powi (k - 52)"
proof -
  have "0 < (2::real) powi k" by simp
  with assms(1) have "0 < \<bar>x\<bar>" by linarith
  then have nz: "x \<noteq> 0" by simp
  have "binade x = k" using assms(1,2) by (rule binade_eqI)
  with nz assms(3) show ?thesis
    by (simp add: round64_def Let_def max_def)
qed

lemma round64_subnormal:
  assumes "x \<noteq> 0" and "\<bar>x\<bar> < 2 powi (- 1022)"
  shows "round64 x = of_int (roundHalfEven (x / 2 powi (- 1074))) * 2 powi (- 1074)"
proof -
  have "binade x < - 1022"
  proof -
    have "2 powi (binade x) \<le> \<bar>x\<bar>" using assms(1) by (rule binade_bounds)
    with assms(2) have "(2::real) powi (binade x) < 2 powi (- 1022)" by linarith
    then show ?thesis by (rule two_powi_less_cancel)
  qed
  with assms(1) show ?thesis
    by (simp add: round64_def Let_def max_def)
qed

lemma binade_of_int:
  assumes "m \<noteq> 0" and "\<bar>m\<bar> < 2 ^ 53"
  shows "0 \<le> binade (of_int m)" and "binade (of_int m) \<le> 52"
proof -
  let ?x = "of_int m :: real"
  have nz: "?x \<noteq> 0" using assms(1) by simp
  note b = binade_bounds [OF nz]
  have "1 \<le> \<bar>?x\<bar>" using assms(1) by (simp flip: of_int_abs)
  with b(2) have "(2::real) powi 0 < 2 powi (binade ?x + 1)" by simp
  then have "0 < binade ?x + 1" by (rule two_powi_less_cancel)
  then show "0 \<le> binade ?x" by simp
  have "\<bar>?x\<bar> < 2 ^ 53" using assms(2) by (simp flip: of_int_abs)
  with b(1) have "(2::real) powi (binade ?x) < 2 powi 53" by simp
  then have "binade ?x < 53" by (rule two_powi_less_cancel)
  then show "binade ?x \<le> 52" by simp
qed

lemma round64_dyadic:
  assumes "\<bar>m\<bar> < 2 ^ 53" and "- 1074 \<le> j"
  shows "round64 (of_int m * 2 powi j) = of_int m * 2 powi j"
proof (cases "m = 0")
  case True
  then show ?thesis by (simp add: round64_def)
next
  case False
  let ?x = "of_int m * 2 powi j :: real"
  define k where "k = binade (of_int m)"
  have k: "0 \<le> k" "k \<le> 52"
    using binade_of_int [OF False assms(1)] by (simp_all add: k_def)
  have mnz: "(of_int m :: real) \<noteq> 0" using False by simp
  have nz: "?x \<noteq> 0" using False by simp
  have bk: "2 powi k \<le> \<bar>of_int m :: real\<bar>" "\<bar>of_int m :: real\<bar> < 2 powi (k + 1)"
    using binade_bounds [OF mnz] by (simp_all add: k_def)
  have "2 powi (k + j) \<le> \<bar>?x\<bar>"
    using bk(1) by (simp add: power_int_add abs_mult)
  moreover have "\<bar>?x\<bar> < 2 powi (k + j + 1)"
  proof -
    have "\<bar>?x\<bar> = \<bar>of_int m :: real\<bar> * 2 powi j" by (simp add: abs_mult)
    also have "\<dots> < 2 powi (k + 1) * 2 powi j"
      using bk(2) by (intro mult_strict_right_mono) simp_all
    also have "\<dots> = 2 powi (k + j + 1)"
      by (simp add: power_int_add)
    finally show ?thesis .
  qed
  ultimately have bin: "binade ?x = k + j" by (rule binade_eqI)
  define e where "e = max (k + j) (- 1022)"
  define n where "n = nat (j + 52 - e)"
  have n: "j + 52 - e = int n"
    using k assms(2) by (simp add: n_def e_def max_def)
  have j: "j = (e - 52) + int n" using n by simp
  have pj: "(2::real) powi j = 2 powi (e - 52) * 2 ^ n"
    by (subst j) (simp add: power_int_add)
  then have quot: "?x / 2 powi (e - 52) = of_int (m * 2 ^ n)"
    by simp
  have "round64 ?x = of_int (roundHalfEven (?x / 2 powi (e - 52))) * 2 powi (e - 52)"
    using nz by (simp add: round64_def Let_def bin e_def)
  also have "\<dots> = of_int (m * 2 ^ n) * 2 powi (e - 52)"
    by (simp only: quot roundHalfEven_of_int)
  also have "\<dots> = ?x"
    by (simp add: pj)
  finally show ?thesis .
qed

lemma round64_of_int: "\<bar>m\<bar> < 2 ^ 53 \<Longrightarrow> round64 (of_int m) = of_int m"
  using round64_dyadic [of m 0] by simp

lemma round64_of_nat: "n < 2 ^ 53 \<Longrightarrow> round64 (of_nat n) = of_nat n"
  using round64_of_int [of "int n"] by simp


lemma roundHalfEven_bounds:
  "\<lfloor>y\<rfloor> \<le> roundHalfEven y" "roundHalfEven y \<le> \<lfloor>y\<rfloor> + 1"
  by (simp_all add: roundHalfEven_def Let_def)

lemma round64_idem: "round64 (round64 x) = round64 x"
proof (cases "x = 0")
  case True
  then show ?thesis by (simp add: round64_def)
next
  case False
  define e where "e = max (binade x) (- 1022)"
  define q where "q = (2::real) powi (e - 52)"
  define r where "r = roundHalfEven (x / q)"
  have q: "0 < q" by (simp add: q_def)
  have val: "round64 x = of_int r * 2 powi (e - 52)"
    using False by (simp add: round64_def Let_def e_def q_def r_def)
  have "\<bar>x\<bar> < 2 powi (binade x + 1)" using False by (rule binade_bounds)
  also have "\<dots> \<le> 2 powi (e + 1)"
    by (intro power_int_increasing) (simp_all add: e_def)
  also have "\<dots> = 2 ^ 53 * q"
  proof -
    have "(2::real) powi (53 + (e - 52)) = 2 powi 53 * 2 powi (e - 52)"
      by (rule power_int_add) simp
    moreover have "53 + (e - 52) = e + 1" by simp
    ultimately have "(2::real) powi (e + 1) = 2 powi 53 * 2 powi (e - 52)"
      by (simp only:)
    then show ?thesis by (simp add: q_def)
  qed
  finally have "\<bar>x\<bar> / q < 2 ^ 53" using q by (simp add: field_simps)
  then have y: "\<bar>x / q\<bar> < 2 ^ 53" using q by simp
  have up: "r \<le> 2 ^ 53"
  proof -
    have "x / q < 2 ^ 53" using y by linarith
    then have "\<lfloor>x / q\<rfloor> < 2 ^ 53" by (simp add: floor_less_iff)
    with roundHalfEven_bounds(2) [of "x / q"] show ?thesis unfolding r_def by linarith
  qed
  have low: "- (2 ^ 53) \<le> r"
  proof -
    have "- (2 ^ 53) \<le> x / q" using y by linarith
    then have "- (2 ^ 53) \<le> \<lfloor>x / q\<rfloor>" by (simp add: le_floor_iff)
    with roundHalfEven_bounds(1) [of "x / q"] show ?thesis unfolding r_def by linarith
  qed
  have e: "- 1074 \<le> e - 52" by (simp add: e_def)
  consider "\<bar>r\<bar> < 2 ^ 53" | "r = 2 ^ 53" | "r = - (2 ^ 53)"
    using up low by linarith
  then have "round64 (of_int r * 2 powi (e - 52)) = of_int r * 2 powi (e - 52)"
  proof cases
    case 1
    then show ?thesis using e by (rule round64_dyadic)
  next
    case 2
    have "(2::real) powi (e - 51) = 2 * 2 powi (e - 52)"
      using power_int_add [of "2::real" 1 "e - 52"] by simp
    then have "of_int r * 2 powi (e - 52) = of_int (2 ^ 52) * (2::real) powi (e - 51)"
      by (simp add: 2)
    moreover have "round64 (of_int (2 ^ 52) * 2 powi (e - 51)) = of_int (2 ^ 52) * 2 powi (e - 51)"
      using e by (intro round64_dyadic) simp_all
    ultimately show ?thesis by (simp only:)
  next
    case 3
    have "(2::real) powi (e - 51) = 2 * 2 powi (e - 52)"
      using power_int_add [of "2::real" 1 "e - 52"] by simp
    then have "of_int r * 2 powi (e - 52) = of_int (- (2 ^ 52)) * (2::real) powi (e - 51)"
      by (simp add: 3)
    moreover have "round64 (of_int (- (2 ^ 52)) * 2 powi (e - 51))
                     = of_int (- (2 ^ 52)) * 2 powi (e - 51)"
      using e by (intro round64_dyadic) simp_all
    ultimately show ?thesis by (simp only:)
  qed
  then show ?thesis by (simp only: val)
qed

section \<open>Properties of the aggregation functions\<close>

declare summaryLoop.simps [simp del]
declare digits.simps [simp del]

subsection \<open>Exact sums\<close>

lemma isWhole_iff: "isWhole x \<longleftrightarrow> (\<exists>n::nat. x = of_nat n)"
proof
  assume w: "isWhole x"
  then have "0 \<le> x" and fl: "of_int \<lfloor>x\<rfloor> = x"
    by (simp_all add: isWhole_def split: if_splits)
  then have "0 \<le> \<lfloor>x\<rfloor>" by simp
  then have "of_nat (nat \<lfloor>x\<rfloor>) = (of_int \<lfloor>x\<rfloor> :: real)" by simp
  with fl show "\<exists>n::nat. x = of_nat n" by metis
next
  assume "\<exists>n::nat. x = of_nat n"
  then obtain n :: nat where n: "x = of_nat n" by blast
  have "\<lfloor>real n\<rfloor> = int n" by simp
  then have "of_int \<lfloor>real n\<rfloor> = real n" by simp
  then show "isWhole x" by (simp only: isWhole_def n) simp
qed

lemma isWhole_add: "isWhole a \<Longrightarrow> isWhole b \<Longrightarrow> isWhole (a + b)"
proof -
  assume "isWhole a" and "isWhole b"
  then obtain m n :: nat where "a = of_nat m" and "b = of_nat n"
    by (auto simp: isWhole_iff)
  then have "a + b = of_nat (m + n)" by simp
  then show ?thesis unfolding isWhole_iff by blast
qed

lemma isWhole_0: "isWhole 0"
  by (simp add: isWhole_def)

lemma sum_list_whole: "list_all isWhole xs \<Longrightarrow> isWhole (sum_list xs)"
  by (induction xs) (simp_all add: isWhole_0 isWhole_add)

lemma fadd_whole:
  assumes "isWhole a" and "isWhole b" and "a + b < 2 ^ 53"
  shows "fadd a b = a + b" and "isWhole (a + b)"
proof -
  obtain m n :: nat where a: "a = of_nat m" and b: "b = of_nat n"
    using assms(1,2) by (auto simp: isWhole_iff)
  have sum: "a + b = of_nat (m + n)" by (simp add: a b)
  show "isWhole (a + b)" using assms(1,2) by (rule isWhole_add)
  have "(of_nat (m + n) :: real) < 2 ^ 53" using assms(3) sum by simp
  then have "m + n < 2 ^ 53" by (metis of_nat_less_iff of_nat_numeral of_nat_power)
  then show "fadd a b = a + b"
    unfolding fadd_def sum by (rule round64_of_nat)
qed

lemma isWhole_nonneg: "isWhole x \<Longrightarrow> 0 \<le> x"
  by (simp add: isWhole_def split: if_splits)

lemma sum_list_whole_nonneg: "list_all isWhole xs \<Longrightarrow> 0 \<le> sum_list xs"
  by (induction xs) (auto dest: isWhole_nonneg)

lemma foldl_fadd_whole:
  "isWhole a \<Longrightarrow> list_all isWhole xs \<Longrightarrow> a + sum_list xs < 2 ^ 53 \<Longrightarrow>
   foldl fadd a xs = a + sum_list xs"
proof (induction xs arbitrary: a)
  case Nil
  then show ?case by simp
next
  case (Cons x xs)
  have rest: "0 \<le> sum_list xs" using Cons.prems(2) by (simp add: sum_list_whole_nonneg)
  have x: "isWhole x" and xs: "list_all isWhole xs" using Cons.prems(2) by simp_all
  have small: "a + x < 2 ^ 53" using Cons.prems(3) rest by simp
  note step = fadd_whole [OF Cons.prems(1) x small]
  have "foldl fadd (a + x) xs = (a + x) + sum_list xs"
    using step(2) xs Cons.prems(3) by (intro Cons.IH) simp_all
  then show ?case by (simp add: step(1))
qed

lemma doubleSum_whole:
  "list_all isWhole xs \<Longrightarrow> sum_list xs < 2 ^ 53 \<Longrightarrow> doubleSum xs = sum_list xs"
  using foldl_fadd_whole [of 0 xs] by (simp add: doubleSum_def isWhole_0)

lemma sum_list_filter_le:
  "list_all (\<lambda>e. isWhole (amount e)) es \<Longrightarrow>
   sum_list (map amount (filter P es)) \<le> sum_list (map amount es)"
  by (induction es) (auto dest: isWhole_nonneg)

lemma wholeAmounts_iff:
  "wholeAmounts es \<longleftrightarrow>
     list_all (\<lambda>e. isWhole (amount e)) es \<and> sum_list (map amount es) < 2 ^ 53"
  by (simp add: wholeAmounts_def)

lemma wholeAmounts_filter: "wholeAmounts es \<Longrightarrow> wholeAmounts (filter P es)"
proof -
  assume w: "wholeAmounts es"
  then have all: "list_all (\<lambda>e. isWhole (amount e)) es" by (simp add: wholeAmounts_iff)
  then have "list_all (\<lambda>e. isWhole (amount e)) (filter P es)"
    by (simp add: list_all_iff)
  moreover have "sum_list (map amount (filter P es)) < 2 ^ 53"
    using sum_list_filter_le [OF all, of P] w by (simp add: wholeAmounts_iff)
  ultimately show ?thesis by (simp add: wholeAmounts_iff)
qed

lemma doubleSum_wholeAmounts:
  "wholeAmounts es \<Longrightarrow> doubleSum (map amount es) = sum_list (map amount es)"
  by (intro doubleSum_whole) (simp_all add: wholeAmounts_iff list_all_iff)

subsection \<open>The aggregation functions\<close>

lemma startsWith_prefix: "startsWith s m \<longleftrightarrow> prefix m s"
proof
  assume "startsWith s m"
  then have "take (length m) s = m"
    by (simp add: startsWith_def split: if_splits)
  then show "prefix m s"
    by (metis take_is_prefix)
next
  assume "prefix m s"
  then show "startsWith s m"
    by (auto simp: startsWith_def prefix_def)
qed

lemma filterExpensesByMonth_prefix:
  "filterExpensesByMonth es m = filter (\<lambda>e. prefix m (date e)) es"
  by (simp add: filterExpensesByMonth_def startsWith_prefix)

lemma foldl_fadd_amount:
  "foldl (\<lambda>total expense. fadd total (amount expense)) a es = foldl fadd a (map amount es)"
  by (induction es arbitrary: a) simp_all

lemma sumAmounts_doubleSum: "sumAmounts es = doubleSum (map amount es)"
  by (simp add: sumAmounts_def doubleSum_def foldl_fadd_amount)

lemma addToCategory_eq:
  "addToCategory result e
     = result(category e \<mapsto> fadd (valueOr0 (result (category e))) (amount e))"
  by (auto simp: addToCategory_def falsy_def valueOr0_def Let_def split: option.splits)

lemma foldl_addToCategory:
  "foldl addToCategory acc es c =
     (if \<exists>e\<in>set es. category e = c
      then Some (foldl fadd (valueOr0 (acc c)) (map amount (filter (\<lambda>e. category e = c) es)))
      else acc c)"
proof (induction es arbitrary: acc)
  case Nil
  show ?case by simp
next
  case (Cons e es)
  have "foldl addToCategory acc (e # es) c = foldl addToCategory (addToCategory acc e) es c"
    by simp
  also have "\<dots> =
     (if \<exists>x\<in>set es. category x = c
      then Some (foldl fadd (valueOr0 (addToCategory acc e c))
                   (map amount (filter (\<lambda>x. category x = c) es)))
      else addToCategory acc e c)"
    by (rule Cons.IH)
  also have "\<dots> =
     (if \<exists>x\<in>set (e # es). category x = c
      then Some (foldl fadd (valueOr0 (acc c))
                   (map amount (filter (\<lambda>x. category x = c) (e # es))))
      else acc c)"
    by (simp add: addToCategory_eq valueOr0_def)
  finally show ?case .
qed

lemma groupByCategory_apply:
  "groupByCategory es c =
     (if \<exists>e\<in>set es. category e = c
      then Some (doubleSum (map amount (filter (\<lambda>e. category e = c) es)))
      else None)"
  by (simp add: groupByCategory_def foldl_addToCategory valueOr0_def doubleSum_def)

lemma dom_groupByCategory: "dom (groupByCategory es) = category ` set es"
  by (auto simp: dom_def groupByCategory_apply)

lemma valueOr0_groupByCategory:
  "valueOr0 (groupByCategory es c) = doubleSum (map amount (filter (\<lambda>e. category e = c) es))"
proof (cases "\<exists>e\<in>set es. category e = c")
  case True
  then show ?thesis by (simp add: groupByCategory_apply valueOr0_def)
next
  case False
  then have "filter (\<lambda>e. category e = c) es = []"
    by (simp add: filter_empty_conv)
  with False show ?thesis by (simp add: groupByCategory_apply valueOr0_def doubleSum_def)
qed

lemma sum_per_category:
  "finite S \<Longrightarrow> category ` set es \<subseteq> S \<Longrightarrow>
   (\<Sum>c\<in>S. sum_list (map amount (filter (\<lambda>e. category e = c) es))) = sum_list (map amount es)"
proof (induction es)
  case Nil
  show ?case by simp
next
  case (Cons e es)
  have "(\<Sum>c\<in>S. sum_list (map amount (filter (\<lambda>x. category x = c) (e # es))))
      = (\<Sum>c\<in>S. (if category e = c then amount e else 0)
                  + sum_list (map amount (filter (\<lambda>x. category x = c) es)))"
    by (intro sum.cong) auto
  also have "\<dots> = (\<Sum>c\<in>S. if category e = c then amount e else 0)
                 + (\<Sum>c\<in>S. sum_list (map amount (filter (\<lambda>x. category x = c) es)))"
    by (simp add: sum.distrib)
  also have "(\<Sum>c\<in>S. if category e = c then amount e else 0) = amount e"
    using Cons.prems by simp
  finally show ?case using Cons by simp
qed

lemma set_getCategories: "set getCategories = UNIV"
proof -
  have "c \<in> set getCategories" for c
    by (cases c) (simp_all add: getCategories_def)
  then show ?thesis by blast
qed

lemma distinct_getCategories: "distinct getCategories"
  by (simp add: getCategories_def)

lemma finite_categories: "finite (UNIV :: ExpenseCategory set)"
  by (metis set_getCategories List.finite_set)

text \<open>With whole amounts the values of the per-category object and their sum are exact.\<close>

lemma groupByCategory_whole:
  assumes "wholeAmounts es"
  shows "valueOr0 (groupByCategory es c) = sum_list (map amount (filter (\<lambda>e. category e = c) es))"
  by (simp add: valueOr0_groupByCategory doubleSum_wholeAmounts wholeAmounts_filter [OF assms])

lemma sum_values_whole:
  assumes "wholeAmounts es"
  shows "sum_list (map (\<lambda>c. valueOr0 (groupByCategory es c)) getCategories)
           = sum_list (map amount es)"
proof -
  have "sum_list (map (\<lambda>c. valueOr0 (groupByCategory es c)) getCategories)
          = (\<Sum>c\<in>UNIV. valueOr0 (groupByCategory es c))"
    by (simp add: sum_list_distinct_conv_sum_set distinct_getCategories set_getCategories)
  also have "\<dots> = (\<Sum>c\<in>UNIV. sum_list (map amount (filter (\<lambda>e. category e = c) es)))"
    by (simp add: groupByCategory_whole [OF assms])
  also have "\<dots> = sum_list (map amount es)"
    by (rule sum_per_category) (simp_all add: finite_categories)
  finally show ?thesis .
qed

lemma sumOfValues_whole:
  assumes "wholeAmounts es"
  shows "sumOfValues (groupByCategory es) = sum_list (map amount es)"
proof -
  let ?vs = "map (\<lambda>c. valueOr0 (groupByCategory es c)) getCategories"
  have all: "list_all (\<lambda>e. isWhole (amount e)) es" and small: "sum_list (map amount es) < 2 ^ 53"
    using assms by (simp_all add: wholeAmounts_iff)
  have whole: "list_all isWhole ?vs"
  proof -
    have "isWhole (valueOr0 (groupByCategory es c))" for c
    proof -
      have "list_all isWhole (map amount (filter (\<lambda>e. category e = c) es))"
        using all by (simp add: list_all_iff)
      then have "isWhole (sum_list (map amount (filter (\<lambda>e. category e = c) es)))"
        by (rule sum_list_whole)
      then show ?thesis by (simp add: groupByCategory_whole [OF assms])
    qed
    then show ?thesis by (simp add: list_all_iff)
  qed
  have "doubleSum ?vs = sum_list ?vs"
    using whole small by (intro doubleSum_whole) (simp_all add: sum_values_whole [OF assms])
  then show ?thesis
    by (simp add: sumOfValues_def sum_values_whole [OF assms])
qed

lemma sum_dom_values:
  fixes m :: CategoryAmounts
  shows "(\<Sum>c\<in>dom m. the (m c)) = sum_list (map (\<lambda>c. valueOr0 (m c)) getCategories)"
proof -
  have "sum_list (map (\<lambda>c. valueOr0 (m c)) getCategories) = (\<Sum>c\<in>UNIV. valueOr0 (m c))"
    by (simp add: sum_list_distinct_conv_sum_set distinct_getCategories set_getCategories)
  also have "\<dots> = (\<Sum>c\<in>dom m. valueOr0 (m c))"
    by (rule sum.mono_neutral_right) (auto simp: finite_categories valueOr0_def dom_def)
  also have "\<dots> = (\<Sum>c\<in>dom m. the (m c))"
    by (rule sum.cong) (auto simp: valueOr0_def)
  finally show ?thesis by simp
qed

subsection \<open>Numbers of the examples\<close>

lemma fadd_0_left: "fadd 0 x = round64 x"
  by (simp add: fadd_def)

lemma fadd_0_right: "fadd x 0 = round64 x"
  by (simp add: fadd_def)

lemma round64_toDouble: "round64 (toDouble x) = toDouble x"
  by (simp add: toDouble_def round64_idem)

lemma round64_numeral: "numeral n < (2::nat) ^ 53 \<Longrightarrow> round64 (numeral n) = numeral n"
  using round64_of_nat [of "numeral n"] by simp

lemma fadd_numeral:
  "numeral m + numeral n < (2::nat) ^ 53 \<Longrightarrow> fadd (numeral m) (numeral n) = numeral m + numeral n"
  using round64_of_nat [of "numeral m + numeral n"] by (simp add: fadd_def)

lemma doubleSum_Cons: "doubleSum (x # xs) = foldl fadd (round64 x) xs"
  by (simp add: doubleSum_def fadd_0_left)

lemma doubleSum_Nil: "doubleSum [] = 0"
  by (simp add: doubleSum_def)

lemma round64_cents: "round64 (cents n) = cents n"
  by (simp add: cents_def round64_toDouble)

lemma cents_values:
  "cents 1 = 5764607523034235 / 2 ^ 59"
  "cents 2 = 5764607523034235 / 2 ^ 58"
  "cents 4 = 5764607523034235 / 2 ^ 57"
  "cents 5 = 7205759403792794 / 2 ^ 57"
  "cents 6 = 8646911284551352 / 2 ^ 57"
proof -
  show "cents 1 = 5764607523034235 / 2 ^ 59"
    unfolding cents_def toDouble_def
    by (subst round64_normal [of "-7"]) (simp_all add: roundHalfEven_def)
  show "cents 2 = 5764607523034235 / 2 ^ 58"
    unfolding cents_def toDouble_def
    by (subst round64_normal [of "-6"]) (simp_all add: roundHalfEven_def)
  show "cents 4 = 5764607523034235 / 2 ^ 57"
    unfolding cents_def toDouble_def
    by (subst round64_normal [of "-5"]) (simp_all add: roundHalfEven_def)
  show "cents 5 = 7205759403792794 / 2 ^ 57"
    unfolding cents_def toDouble_def
    by (subst round64_normal [of "-5"]) (simp_all add: roundHalfEven_def)
  show "cents 6 = 8646911284551352 / 2 ^ 57"
    unfolding cents_def toDouble_def
    by (subst round64_normal [of "-5"]) (simp_all add: roundHalfEven_def)
qed

lemma cents_sums:
  "fadd (cents 1) (cents 1) = cents 2"
  "fadd (cents 2) (cents 4) = cents 6"
  "fadd (cents 1) (cents 4) = cents 5"
  "fadd (cents 1) (cents 5) = sixCentsUp"
proof -
  show "fadd (cents 1) (cents 1) = cents 2"
    unfolding fadd_def sixCentsUp_def cents_values
    by (subst round64_normal [of "-6"]) (simp_all add: roundHalfEven_def)
  show "fadd (cents 2) (cents 4) = cents 6"
    unfolding fadd_def sixCentsUp_def cents_values
    by (subst round64_normal [of "-5"]) (simp_all add: roundHalfEven_def)
  show "fadd (cents 1) (cents 4) = cents 5"
    unfolding fadd_def sixCentsUp_def cents_values
    by (subst round64_normal [of "-5"]) (simp_all add: roundHalfEven_def)
  show "fadd (cents 1) (cents 5) = sixCentsUp"
    unfolding fadd_def sixCentsUp_def cents_values
    by (subst round64_normal [of "-5"]) (simp_all add: roundHalfEven_def)
qed

lemma round64_sixCentsUp: "round64 sixCentsUp = sixCentsUp"
  unfolding sixCentsUp_def cents_values
  by (subst round64_normal [of "-5"]) (simp_all add: roundHalfEven_def)

lemma sixCentsUp_differs: "sixCentsUp \<noteq> cents 6" "cents 5 + cents 1 \<noteq> cents 6"
  by (simp_all add: sixCentsUp_def cents_values)

subsection \<open>Claims about the aggregation functions\<close>

lemma filter_category_month:
  "(\<exists>e\<in>set (filter (\<lambda>e. prefix m (date e)) es). category e = c)
     \<longleftrightarrow> (\<exists>e\<in>set es. prefix m (date e) \<and> category e = c)"
  by auto

text \<open>
  Claim C3: for every expense collection and every month key, \<^verbatim>\<open>filterExpensesByMonth\<close>
  returns exactly the expenses whose date string has the month key as a prefix, in their
  order; \<^verbatim>\<open>calculateMonthlyTotal\<close> returns the sum of the amounts of these expenses, and
  \<^verbatim>\<open>calculateExpensesByCategory\<close> the mapping that has a key for exactly the categories
  of these expenses and sends each to the sum of the amounts of these expenses in that
  category. A sum is the sum that JavaScript computes, from 0, left to right in the order
  of the collection (\<^const>\<open>doubleSum\<close>); when the amounts of these expenses are whole
  numbers that sum to less than \<open>2 ^ 53\<close> it is the exact sum. With no matching expense the
  results are the empty list, 0 and the empty mapping; every result is a value, there is
  no failure.
\<close>

theorem aggregation_by_month:
  "filterExpensesByMonth es m = filter (\<lambda>e. prefix m (date e)) es
   \<and> calculateMonthlyTotal es m = doubleSum (map amount (filter (\<lambda>e. prefix m (date e)) es))
   \<and> (\<forall>c. calculateExpensesByCategory es m c =
          (if \<exists>e\<in>set es. prefix m (date e) \<and> category e = c
           then Some (doubleSum (map amount
                  (filter (\<lambda>e. category e = c) (filter (\<lambda>e. prefix m (date e)) es))))
           else None))
   \<and> ((\<forall>e\<in>set es. \<not> prefix m (date e)) \<longrightarrow>
          filterExpensesByMonth es m = [] \<and> calculateMonthlyTotal es m = 0
          \<and> calculateExpensesByCategory es m = Map.empty)
   \<and> (wholeAmounts (filter (\<lambda>e. prefix m (date e)) es) \<longrightarrow>
          calculateMonthlyTotal es m = (\<Sum>e\<leftarrow>filter (\<lambda>e. prefix m (date e)) es. amount e)
          \<and> (\<forall>c. calculateExpensesByCategory es m c =
                (if \<exists>e\<in>set es. prefix m (date e) \<and> category e = c
                 then Some (\<Sum>e\<leftarrow>filter (\<lambda>e. category e = c)
                                     (filter (\<lambda>e. prefix m (date e)) es). amount e)
                 else None)))"
proof -
  let ?sel = "filter (\<lambda>e. prefix m (date e)) es"
  have sel: "filterExpensesByMonth es m = ?sel"
    by (rule filterExpensesByMonth_prefix)
  have total: "calculateMonthlyTotal es m = doubleSum (map amount ?sel)"
    by (simp add: calculateMonthlyTotal_def sumAmounts_doubleSum sel)
  have cats: "calculateExpensesByCategory es m c =
          (if \<exists>e\<in>set es. prefix m (date e) \<and> category e = c
           then Some (doubleSum (map amount (filter (\<lambda>e. category e = c) ?sel)))
           else None)" for c
    unfolding calculateExpensesByCategory_def sel groupByCategory_apply filter_category_month ..
  have none: "filterExpensesByMonth es m = [] \<and> calculateMonthlyTotal es m = 0
          \<and> calculateExpensesByCategory es m = Map.empty"
    if "\<forall>e\<in>set es. \<not> prefix m (date e)"
  proof -
    from that have empty: "?sel = []" by (simp add: filter_empty_conv)
    show ?thesis
      by (simp add: sel total empty doubleSum_def calculateExpensesByCategory_def
          groupByCategory_def)
  qed
  have whole: "calculateMonthlyTotal es m = (\<Sum>e\<leftarrow>?sel. amount e)
          \<and> (\<forall>c. calculateExpensesByCategory es m c =
                (if \<exists>e\<in>set es. prefix m (date e) \<and> category e = c
                 then Some (\<Sum>e\<leftarrow>filter (\<lambda>e. category e = c) ?sel. amount e)
                 else None))"
    if w: "wholeAmounts ?sel"
  proof -
    have "doubleSum (map amount (filter (\<lambda>e. category e = c) ?sel))
            = (\<Sum>e\<leftarrow>filter (\<lambda>e. category e = c) ?sel. amount e)" for c
      by (intro doubleSum_wholeAmounts wholeAmounts_filter w)
    then show ?thesis
      by (simp only: total cats doubleSum_wholeAmounts [OF w]) simp
  qed
  show ?thesis
    using sel total cats none whole by blast
qed

lemma select_june:
  "filter (\<lambda>e. prefix ''2024-06'' (date e)) mixedExpenses = juneExpenses"
  by (simp add: mixedExpenses_def juneExpenses_def sampleExpense_def)

lemma wholeAmounts_june: "wholeAmounts juneExpenses"
  by (simp add: wholeAmounts_def juneExpenses_def sampleExpense_def isWhole_def)

theorem aggregation_by_month_witness:
  "filterExpensesByMonth mixedExpenses ''2024-06'' = juneExpenses
   \<and> calculateMonthlyTotal mixedExpenses ''2024-06'' = 180
   \<and> calculateExpensesByCategory mixedExpenses ''2024-06'' = [food \<mapsto> 150, housing \<mapsto> 30]
   \<and> filterExpensesByMonth mixedExpenses ''2024-08'' = []
   \<and> calculateMonthlyTotal mixedExpenses ''2024-08'' = 0
   \<and> calculateExpensesByCategory mixedExpenses ''2024-08'' = Map.empty"
proof -
  note june = aggregation_by_month [of mixedExpenses "''2024-06''"]
  note august = aggregation_by_month [of mixedExpenses "''2024-08''"]
  have no_august: "\<forall>e\<in>set mixedExpenses. \<not> prefix ''2024-08'' (date e)"
    by (simp add: mixedExpenses_def sampleExpense_def)
  have whole: "wholeAmounts (filter (\<lambda>e. prefix ''2024-06'' (date e)) mixedExpenses)"
    by (simp only: select_june wholeAmounts_june)
  have sel: "filterExpensesByMonth mixedExpenses ''2024-06'' = juneExpenses"
    using june by (simp only: select_june)
  have total: "calculateMonthlyTotal mixedExpenses ''2024-06'' = 180"
  proof -
    from june whole
    have "calculateMonthlyTotal mixedExpenses ''2024-06''
            = (\<Sum>e\<leftarrow>filter (\<lambda>e. prefix ''2024-06'' (date e)) mixedExpenses. amount e)"
      by blast
    then show ?thesis
      by (simp only: select_june) (simp add: juneExpenses_def sampleExpense_def)
  qed
  have "calculateExpensesByCategory mixedExpenses ''2024-06'' c
          = [food \<mapsto> 150, housing \<mapsto> 30] c" for c
  proof -
    from june whole
    have "calculateExpensesByCategory mixedExpenses ''2024-06'' c =
            (if \<exists>e\<in>set mixedExpenses. prefix ''2024-06'' (date e) \<and> category e = c
             then Some (\<Sum>e\<leftarrow>filter (\<lambda>e. category e = c)
                    (filter (\<lambda>e. prefix ''2024-06'' (date e)) mixedExpenses). amount e)
             else None)"
      by blast
    then show ?thesis
      by (cases c)
         (simp_all only: select_june, simp_all add: mixedExpenses_def juneExpenses_def
            sampleExpense_def)
  qed
  then have cats: "calculateExpensesByCategory mixedExpenses ''2024-06''
                     = [food \<mapsto> 150, housing \<mapsto> 30]"
    by (rule ext)
  show ?thesis
    using sel total cats august no_august by blast
qed


text \<open>
  Claim C4, amended: for all expense collections and month keys, the sum of the amounts of
  \<^verbatim>\<open>filterExpensesByMonth(E, M)\<close>, added from 0 in the order of the collection, equals
  \<^verbatim>\<open>calculateMonthlyTotal(E, M)\<close>; and when the amounts of the expenses of that month are
  whole numbers that sum to less than \<open>2 ^ 53\<close>, the sum of the values of
  \<^verbatim>\<open>calculateExpensesByCategory(E, M)\<close> equals \<^verbatim>\<open>calculateMonthlyTotal(E, M)\<close> as well,
  whether the values are added as doubles in the order of the taxonomy
  (\<^const>\<open>sumOfValues\<close>) or exactly.
\<close>

theorem aggregation_sums_agree:
  "doubleSum (map amount (filterExpensesByMonth es m)) = calculateMonthlyTotal es m
   \<and> (wholeAmounts (filter (\<lambda>e. prefix m (date e)) es) \<longrightarrow>
        sumOfValues (calculateExpensesByCategory es m) = calculateMonthlyTotal es m
        \<and> (\<Sum>c\<in>dom (calculateExpensesByCategory es m). the (calculateExpensesByCategory es m c))
            = calculateMonthlyTotal es m)"
proof (intro conjI impI)
  show "doubleSum (map amount (filterExpensesByMonth es m)) = calculateMonthlyTotal es m"
    by (simp add: calculateMonthlyTotal_def sumAmounts_doubleSum)
next
  assume "wholeAmounts (filter (\<lambda>e. prefix m (date e)) es)"
  then have w: "wholeAmounts (filterExpensesByMonth es m)"
    by (simp only: filterExpensesByMonth_prefix)
  have total: "calculateMonthlyTotal es m = sum_list (map amount (filterExpensesByMonth es m))"
    by (simp add: calculateMonthlyTotal_def sumAmounts_doubleSum doubleSum_wholeAmounts [OF w])
  show "sumOfValues (calculateExpensesByCategory es m) = calculateMonthlyTotal es m"
    by (simp only: calculateExpensesByCategory_def sumOfValues_whole [OF w] total)
  show "(\<Sum>c\<in>dom (calculateExpensesByCategory es m). the (calculateExpensesByCategory es m c))
          = calculateMonthlyTotal es m"
    by (simp only: sum_dom_values calculateExpensesByCategory_def sum_values_whole [OF w] total)
qed

theorem aggregation_sums_agree_witness:
  "doubleSum (map amount (filterExpensesByMonth mixedExpenses ''2024-06'')) = 180
   \<and> calculateMonthlyTotal mixedExpenses ''2024-06'' = 180
   \<and> sumOfValues (calculateExpensesByCategory mixedExpenses ''2024-06'') = 180"
proof -
  have whole: "wholeAmounts (filter (\<lambda>e. prefix ''2024-06'' (date e)) mixedExpenses)"
    by (simp only: select_june wholeAmounts_june)
  have "calculateMonthlyTotal mixedExpenses ''2024-06'' = sum_list (map amount juneExpenses)"
    by (simp add: calculateMonthlyTotal_def sumAmounts_doubleSum filterExpensesByMonth_prefix
        select_june doubleSum_wholeAmounts wholeAmounts_june)
  then have total: "calculateMonthlyTotal mixedExpenses ''2024-06'' = 180"
    by (simp add: juneExpenses_def sampleExpense_def)
  show ?thesis
    using aggregation_sums_agree [of mixedExpenses "''2024-06''"] whole total by simp
qed

lemma select_cents:
  "filter (\<lambda>e. prefix ''2024-06'' (date e)) centExpenses
     = [sampleExpense (cents 1) food ''2024-06-01'',
        sampleExpense (cents 1) housing ''2024-06-02'',
        sampleExpense (cents 4) food ''2024-06-03'']"
  by (simp add: centExpenses_def sampleExpense_def)

lemma cent_total:
  "doubleSum (map amount
     [sampleExpense (cents 1) food d1, sampleExpense (cents 1) housing d2,
      sampleExpense (cents 4) food d3]) = cents 6"
  by (simp add: doubleSum_Cons sampleExpense_def round64_cents cents_sums)

lemma cent_categories:
  "groupByCategory
     [sampleExpense (cents 1) food d1, sampleExpense (cents 1) housing d2,
      sampleExpense (cents 4) food d3]
     = [food \<mapsto> cents 5, housing \<mapsto> cents 1]"
proof
  fix c
  show "groupByCategory
     [sampleExpense (cents 1) food d1, sampleExpense (cents 1) housing d2,
      sampleExpense (cents 4) food d3] c
     = [food \<mapsto> cents 5, housing \<mapsto> cents 1] c"
    by (cases c)
       (simp_all add: groupByCategory_apply sampleExpense_def doubleSum_Cons doubleSum_Nil
          round64_cents cents_sums)
qed

lemma cent_sumOfValues:
  "sumOfValues [food \<mapsto> cents 5, housing \<mapsto> cents 1] = sixCentsUp"
  by (simp add: sumOfValues_def getCategories_def valueOr0_def doubleSum_Cons fadd_0_right
      round64_cents cents_sums round64_sixCentsUp)

text \<open>
  Claim C4, as stated, fails: for the expenses 0.01 (food), 0.01 (housing) and 0.04 (food)
  of June 2024, among an expense of May, the monthly total is the double 0.06, the
  per-category values are 0.05 and 0.01, and their sum is the next double above 0.06
  (0.060000000000000005), as a double sum and as an exact sum alike.
\<close>

theorem category_sums_differ_for_cents:
  "calculateMonthlyTotal centExpenses ''2024-06'' = cents 6
   \<and> calculateExpensesByCategory centExpenses ''2024-06''
       = [food \<mapsto> cents 5, housing \<mapsto> cents 1]
   \<and> sumOfValues (calculateExpensesByCategory centExpenses ''2024-06'') = sixCentsUp
   \<and> sumOfValues (calculateExpensesByCategory centExpenses ''2024-06'')
       \<noteq> calculateMonthlyTotal centExpenses ''2024-06''
   \<and> cents 5 + cents 1 \<noteq> calculateMonthlyTotal centExpenses ''2024-06''"
proof -
  have total: "calculateMonthlyTotal centExpenses ''2024-06'' = cents 6"
    by (simp only: calculateMonthlyTotal_def sumAmounts_doubleSum filterExpensesByMonth_prefix
        select_cents cent_total)
  have cats: "calculateExpensesByCategory centExpenses ''2024-06''
       = [food \<mapsto> cents 5, housing \<mapsto> cents 1]"
    by (simp only: calculateExpensesByCategory_def filterExpensesByMonth_prefix select_cents
        cent_categories)
  have sum: "sumOfValues (calculateExpensesByCategory centExpenses ''2024-06'') = sixCentsUp"
    by (simp only: cats cent_sumOfValues)
  show ?thesis
    using sixCentsUp_differs by (simp only: total cats cent_sumOfValues) simp
qed

subsection \<open>Claims about the progress calculators\<close>

lemma percent_nonzero: "b \<noteq> 0 \<Longrightarrow> percent a b = Some (fmul (fdiv a b) 100)"
  by (simp add: percent_def jsDivide_def)

lemma spent_in_month:
  "calculateMonthlyTotal es m = doubleSum (map amount (filter (\<lambda>e. prefix m (date e)) es))"
  by (simp add: calculateMonthlyTotal_def sumAmounts_doubleSum filterExpensesByMonth_prefix)

text \<open>
  Claim C5: for every budget and expense collection, when the budget's total limit is
  greater than 0, \<^verbatim>\<open>calculateBudgetProgress\<close> returns \<^verbatim>\<open>(spent / totalBudget) * 100\<close>, where
  \<open>spent\<close> is the sum of the amounts of the expenses whose date has the budget's month as
  a prefix, and of no other expense; when the total limit is 0 it returns exactly 0
  whatever was spent; it never divides by zero (the result is never \<^const>\<open>None\<close>).
\<close>

theorem budget_progress:
  "(totalBudget b > 0 \<longrightarrow>
      calculateBudgetProgress b es
        = Some (fmul (fdiv (doubleSum (map amount (filter (\<lambda>e. prefix (month b) (date e)) es)))
                       (totalBudget b)) 100))
   \<and> (totalBudget b = 0 \<longrightarrow> calculateBudgetProgress b es = Some 0)
   \<and> calculateBudgetProgress b es \<noteq> None"
  by (simp add: calculateBudgetProgress_def percent_nonzero spent_in_month)

lemma spent_june: "doubleSum (map amount juneExpenses) = 180"
  using doubleSum_wholeAmounts [OF wholeAmounts_june]
  by (simp add: juneExpenses_def sampleExpense_def)

lemma forty_five_percent: "fmul (fdiv 180 400) 100 = 45"
proof -
  have "fdiv 180 400 = 8106479329266893 / 2 ^ 54"
    unfolding fdiv_def by (subst round64_normal [of "-2"]) (simp_all add: roundHalfEven_def)
  moreover have "fmul (8106479329266893 / 2 ^ 54) 100 = 45"
    unfolding fmul_def by (subst round64_normal [of 5]) (simp_all add: roundHalfEven_def)
  ultimately show ?thesis by (simp only:)
qed

theorem budget_progress_witness:
  "calculateBudgetProgress foodBudget mixedExpenses = Some 45
   \<and> calculateBudgetProgress (foodBudget\<lparr>totalBudget := 0\<rparr>) mixedExpenses = Some 0"
proof -
  have b: "month foodBudget = ''2024-06''" "totalBudget foodBudget = 400"
    by (simp_all add: foodBudget_def)
  have "calculateBudgetProgress foodBudget mixedExpenses
          = Some (fmul (fdiv (doubleSum (map amount
               (filter (\<lambda>e. prefix (month foodBudget) (date e)) mixedExpenses)))
               (totalBudget foodBudget)) 100)"
    using budget_progress [of foodBudget mixedExpenses] by (simp add: b)
  then have "calculateBudgetProgress foodBudget mixedExpenses = Some 45"
    by (simp only: b select_june spent_june forty_five_percent)
  moreover have "calculateBudgetProgress (foodBudget\<lparr>totalBudget := 0\<rparr>) mixedExpenses = Some 0"
    using budget_progress [of "foodBudget\<lparr>totalBudget := 0\<rparr>" mixedExpenses]
    by simp
  ultimately show ?thesis by simp
qed




section \<open>Properties of the rolling summary and of the current budget\<close>

lemma summaryLoop_unfold:
  "summaryLoop es d 0 [] =
     [summaryEntry es d 0, summaryEntry es d 1, summaryEntry es d 2, summaryEntry es d 3,
      summaryEntry es d 4, summaryEntry es d 5]"
  by (simp add: summaryLoop.simps)

lemma getLastSixMonthsSummary_entries:
  "getLastSixMonthsSummary es d =
     [summaryEntry es d 5, summaryEntry es d 4, summaryEntry es d 3, summaryEntry es d 2,
      summaryEntry es d 1, summaryEntry es d 0]"
  by (simp add: getLastSixMonthsSummary_def summaryLoop_unfold)

lemma length_getLastSixMonthsSummary: "length (getLastSixMonthsSummary es d) = 6"
  by (simp add: getLastSixMonthsSummary_entries)

lemma summaryEntry_fields:
  "month_mt (summaryEntry es d i) = offsetKey d i"
  "total_mt (summaryEntry es d i) = calculateMonthlyTotal es (offsetKey d i)"
  "categories_mt (summaryEntry es d i) = calculateExpensesByCategory es (offsetKey d i)"
  by (simp_all add: summaryEntry_def offsetKey_def Let_def calculateMonthlyTotal_def
      calculateExpensesByCategory_def)

lemma summaryEntry_eq:
  "summaryEntry es d i =
     \<lparr>month_mt = offsetKey d i, total_mt = calculateMonthlyTotal es (offsetKey d i),
      categories_mt = calculateExpensesByCategory es (offsetKey d i)\<rparr>"
  by (simp add: summaryEntry_def offsetKey_def Let_def calculateMonthlyTotal_def
      calculateExpensesByCategory_def)

lemma daysInMonth_ge_28: "28 \<le> daysInMonth y m"
  by (simp add: daysInMonth_def)

lemma setMonth_upto_28:
  assumes "getDate d \<le> 28"
  shows "setMonth d m =
           \<lparr>getFullYear = getFullYear d + m div 12, getMonth = m mod 12, getDate = getDate d\<rparr>"
proof -
  have "getDate d \<le> daysInMonth (getFullYear d + m div 12) (m mod 12)"
    using assms daysInMonth_ge_28 [of "getFullYear d + m div 12" "m mod 12"] by linarith
  then show ?thesis
    by (simp add: setMonth_def Let_def)
qed

lemma formatYearMonth_cong:
  "getFullYear a = getFullYear b \<Longrightarrow> getMonth a = getMonth b \<Longrightarrow>
   formatYearMonth a = formatYearMonth b"
  by (simp add: formatYearMonth_def)

lemma offsetKey_upto_28:
  assumes "getDate d \<le> 28"
  shows "offsetKey d k = formatYearMonth (calendarMonthBefore (getFullYear d) (getMonth d) k)"
proof -
  have y: "(12 * getFullYear d + getMonth d - k) div 12
             = getFullYear d + (getMonth d - k) div 12"
    using div_mult_self1 [of 12 "getMonth d - k" "getFullYear d"]
    by (simp add: algebra_simps)
  have m: "(12 * getFullYear d + getMonth d - k) mod 12 = (getMonth d - k) mod 12"
    using mod_mult_self1 [of "getMonth d - k" "getFullYear d" 12]
    by (simp add: algebra_simps)
  show ?thesis
    unfolding offsetKey_def
    by (rule formatYearMonth_cong) (simp_all add: setMonth_upto_28 [OF assms] calendarMonthBefore_def y m)
qed

lemma rolling_summary_months_upto_28:
  assumes "getDate now \<le> 28"
  shows "map month_mt (getLastSixMonthsSummary es now) = expectedMonthKeys now"
  by (simp add: getLastSixMonthsSummary_entries summaryEntry_fields expectedMonthKeys_def
      offsetKey_upto_28 [OF assms])

lemma rolling_summary_totals:
  "map total_mt (getLastSixMonthsSummary es now)
     = map (calculateMonthlyTotal es) (map month_mt (getLastSixMonthsSummary es now))"
  by (simp add: getLastSixMonthsSummary_entries summaryEntry_fields)

lemma digits_one: "n < 10 \<Longrightarrow> digits n = [digitChar n]"
  by (simp add: digits.simps)

lemma digits_more: "10 \<le> n \<Longrightarrow> digits n = digits (n div 10) @ [digitChar (n mod 10)]"
  by (subst digits.simps) simp

lemma formatYearMonth_values:
  "formatYearMonth \<lparr>getFullYear = 2023, getMonth = 9, getDate = dd\<rparr> = ''2023-10''"
  "formatYearMonth \<lparr>getFullYear = 2023, getMonth = 10, getDate = dd\<rparr> = ''2023-11''"
  "formatYearMonth \<lparr>getFullYear = 2023, getMonth = 11, getDate = dd\<rparr> = ''2023-12''"
  "formatYearMonth \<lparr>getFullYear = 2024, getMonth = 0, getDate = dd\<rparr> = ''2024-01''"
  "formatYearMonth \<lparr>getFullYear = 2024, getMonth = 1, getDate = dd\<rparr> = ''2024-02''"
  "formatYearMonth \<lparr>getFullYear = 2024, getMonth = 2, getDate = dd\<rparr> = ''2024-03''"
  "formatYearMonth \<lparr>getFullYear = 2024, getMonth = 3, getDate = dd\<rparr> = ''2024-04''"
  by (simp_all add: formatYearMonth_def addLeadingZeros_def digits_one digits_more digitChar_def
      Let_def)

lemma setMonth_march31:
  "setMonth march31 (getMonth march31 - 0) = \<lparr>getFullYear = 2024, getMonth = 2, getDate = 31\<rparr>"
  "setMonth march31 (getMonth march31 - 1) = \<lparr>getFullYear = 2024, getMonth = 2, getDate = 2\<rparr>"
  "setMonth march31 (getMonth march31 - 2) = \<lparr>getFullYear = 2024, getMonth = 0, getDate = 31\<rparr>"
  "setMonth march31 (getMonth march31 - 3) = \<lparr>getFullYear = 2023, getMonth = 11, getDate = 31\<rparr>"
  "setMonth march31 (getMonth march31 - 4) = \<lparr>getFullYear = 2023, getMonth = 11, getDate = 1\<rparr>"
  "setMonth march31 (getMonth march31 - 5) = \<lparr>getFullYear = 2023, getMonth = 9, getDate = 31\<rparr>"
  by (simp_all add: march31_def setMonth_def daysInMonth_def isLeapYear_def Let_def)

lemma offsetKey_march31:
  "offsetKey march31 0 = ''2024-03''"
  "offsetKey march31 1 = ''2024-03''"
  "offsetKey march31 2 = ''2024-01''"
  "offsetKey march31 3 = ''2023-12''"
  "offsetKey march31 4 = ''2023-12''"
  "offsetKey march31 5 = ''2023-10''"
  by (simp_all only: offsetKey_def setMonth_march31 formatYearMonth_values)

lemma calendarMonthBefore_march:
  "calendarMonthBefore 2024 2 0 = \<lparr>getFullYear = 2024, getMonth = 2, getDate = 1\<rparr>"
  "calendarMonthBefore 2024 2 1 = \<lparr>getFullYear = 2024, getMonth = 1, getDate = 1\<rparr>"
  "calendarMonthBefore 2024 2 2 = \<lparr>getFullYear = 2024, getMonth = 0, getDate = 1\<rparr>"
  "calendarMonthBefore 2024 2 3 = \<lparr>getFullYear = 2023, getMonth = 11, getDate = 1\<rparr>"
  "calendarMonthBefore 2024 2 4 = \<lparr>getFullYear = 2023, getMonth = 10, getDate = 1\<rparr>"
  "calendarMonthBefore 2024 2 5 = \<lparr>getFullYear = 2023, getMonth = 9, getDate = 1\<rparr>"
  by (simp_all add: calendarMonthBefore_def)

lemma expectedMonthKeys_march:
  "getFullYear now = 2024 \<Longrightarrow> getMonth now = 2 \<Longrightarrow>
   expectedMonthKeys now =
     [''2023-10'', ''2023-11'', ''2023-12'', ''2024-01'', ''2024-02'', ''2024-03'']"
  by (simp add: expectedMonthKeys_def calendarMonthBefore_march formatYearMonth_values)

lemma expectedMonthKeys_march31:
  "expectedMonthKeys march31 =
     [''2023-10'', ''2023-11'', ''2023-12'', ''2024-01'', ''2024-02'', ''2024-03'']"
  by (rule expectedMonthKeys_march) (simp_all add: march31_def)

lemma february_totals:
  "calculateMonthlyTotal februaryExpenses ''2024-02'' = 40"
  "calculateMonthlyTotal februaryExpenses ''2024-03'' = 0"
  "calculateMonthlyTotal februaryExpenses ''2024-01'' = 0"
  "calculateMonthlyTotal februaryExpenses ''2023-12'' = 0"
  "calculateMonthlyTotal februaryExpenses ''2023-10'' = 0"
  using round64_of_nat [of 40]
  by (simp_all add: spent_in_month februaryExpenses_def sampleExpense_def doubleSum_Cons
      doubleSum_Nil)

text \<open>
  Claim C1. The rolling summary is to hold the month of the clock reading and the five
  calendar months before it, oldest first, for every reading, the 31st included. On
  31 March 2024 (a date the clock can show) \<^const>\<open>getLastSixMonthsSummary\<close> returns six
  entries, but their month keys are 2023-10, 2023-12, 2023-12, 2024-01, 2024-03, 2024-03:
  \<^verbatim>\<open>setMonth\<close> keeps the day 31, which November and February do not have, so the date
  runs over into December and March. The calendar's months are 2023-10 to 2024-03. An
  expense of 40 made in February 2024 is in no entry: every total is 0.
\<close>

theorem rolling_summary_on_march_31:
  "validDate march31
   \<and> map month_mt (getLastSixMonthsSummary februaryExpenses march31)
       = [''2023-10'', ''2023-12'', ''2023-12'', ''2024-01'', ''2024-03'', ''2024-03'']
   \<and> expectedMonthKeys march31
       = [''2023-10'', ''2023-11'', ''2023-12'', ''2024-01'', ''2024-02'', ''2024-03'']
   \<and> map total_mt (getLastSixMonthsSummary februaryExpenses march31) = [0, 0, 0, 0, 0, 0]
   \<and> calculateMonthlyTotal februaryExpenses ''2024-02'' = 40"
proof -
  have "validDate march31"
    by (simp add: validDate_def march31_def daysInMonth_def)
  moreover have "map month_mt (getLastSixMonthsSummary februaryExpenses march31)
       = [''2023-10'', ''2023-12'', ''2023-12'', ''2024-01'', ''2024-03'', ''2024-03'']"
    by (simp add: getLastSixMonthsSummary_entries summaryEntry_fields offsetKey_march31)
  moreover have "map total_mt (getLastSixMonthsSummary februaryExpenses march31)
       = [0, 0, 0, 0, 0, 0]"
    by (simp add: getLastSixMonthsSummary_entries summaryEntry_fields offsetKey_march31
        february_totals)
  ultimately show ?thesis
    using expectedMonthKeys_march31 february_totals(1) by simp
qed


lemma offsetKey_same_month:
  assumes "getFullYear d1 = getFullYear d2" and "getMonth d1 = getMonth d2"
    and "getDate d1 \<le> 28" and "getDate d2 \<le> 28"
  shows "offsetKey d1 i = offsetKey d2 i"
  by (simp add: offsetKey_upto_28 assms)

lemma offsetKey_march15:
  "offsetKey march15 0 = ''2024-03''"
  "offsetKey march15 1 = ''2024-02''"
  "offsetKey march15 2 = ''2024-01''"
  "offsetKey march15 3 = ''2023-12''"
  "offsetKey march15 4 = ''2023-11''"
  "offsetKey march15 5 = ''2023-10''"
  by (simp_all add: offsetKey_upto_28 march15_def calendarMonthBefore_march formatYearMonth_values)

lemma offsetKey_april15: "offsetKey april15 0 = ''2024-04''"
  by (simp add: offsetKey_upto_28 april15_def calendarMonthBefore_def formatYearMonth_values)

lemma summary_differs_march_april:
  "getLastSixMonthsSummary es march15 \<noteq> getLastSixMonthsSummary es april15"
proof
  assume "getLastSixMonthsSummary es march15 = getLastSixMonthsSummary es april15"
  then have "map month_mt (getLastSixMonthsSummary es march15)
               = map month_mt (getLastSixMonthsSummary es april15)"
    by simp
  then have "offsetKey march15 0 = offsetKey april15 0"
    by (simp add: getLastSixMonthsSummary_entries summaryEntry_fields)
  then show False
    by (simp add: offsetKey_march15 offsetKey_april15)
qed

lemma summary_same_within_month:
  assumes "getFullYear d1 = getFullYear d2" and "getMonth d1 = getMonth d2"
    and "getDate d1 \<le> 28" and "getDate d2 \<le> 28"
  shows "getLastSixMonthsSummary es d1 = getLastSixMonthsSummary es d2"
  by (simp add: getLastSixMonthsSummary_entries summaryEntry_eq offsetKey_same_month [OF assms])

lemma summaryEntry_keys:
  "c \<in> dom (categories_mt (summaryEntry es d i)) \<longleftrightarrow>
     (\<exists>e\<in>set es. prefix (month_mt (summaryEntry es d i)) (date e) \<and> category e = c)"
  by (auto simp: summaryEntry_fields calculateExpensesByCategory_def dom_groupByCategory
      filterExpensesByMonth_prefix)

lemma summaryEntry_total:
  "total_mt (summaryEntry es d i)
     = doubleSum (map amount (filter (\<lambda>e. prefix (month_mt (summaryEntry es d i)) (date e)) es))"
  by (simp add: summaryEntry_fields spent_in_month)

lemma summaryEntry_whole:
  assumes "wholeAmounts (filter (\<lambda>e. prefix (month_mt (summaryEntry es d i)) (date e)) es)"
  shows "total_mt (summaryEntry es d i) = sumOfValues (categories_mt (summaryEntry es d i))"
proof -
  let ?m = "offsetKey d i"
  have w: "wholeAmounts (filterExpensesByMonth es ?m)"
    using assms by (simp only: summaryEntry_fields filterExpensesByMonth_prefix)
  have "calculateMonthlyTotal es ?m = sum_list (map amount (filterExpensesByMonth es ?m))"
    by (simp add: calculateMonthlyTotal_def sumAmounts_doubleSum doubleSum_wholeAmounts [OF w])
  then show ?thesis
    by (simp only: summaryEntry_fields calculateExpensesByCategory_def sumOfValues_whole [OF w])
qed

lemma summaryEntry_values:
  assumes "categories_mt (summaryEntry es d i) c = Some v"
  shows "v = doubleSum (map amount (filter (\<lambda>e. category e = c)
               (filter (\<lambda>e. prefix (month_mt (summaryEntry es d i)) (date e)) es)))"
  using assms
  by (simp add: summaryEntry_fields calculateExpensesByCategory_def groupByCategory_apply
      filterExpensesByMonth_prefix split: if_splits)

text \<open>
  Claim C10, as stated, fails in its first half: with the amounts 0.01 (food), 0.01
  (housing) and 0.04 (food) in March 2024 and the clock on 15 March, the newest entry has
  the total 0.06, while the values of its per-category map (0.05 and 0.01) sum to
  0.060000000000000005. The total adds the amounts in the order of the collection, the
  map adds them category by category, and double addition rounds differently.
\<close>

theorem entry_total_differs_for_cents:
  "getLastSixMonthsSummary centExpensesMarch march15 ! 5 = summaryEntry centExpensesMarch march15 0
   \<and> month_mt (summaryEntry centExpensesMarch march15 0) = ''2024-03''
   \<and> total_mt (summaryEntry centExpensesMarch march15 0) = cents 6
   \<and> categories_mt (summaryEntry centExpensesMarch march15 0)
       = [food \<mapsto> cents 5, housing \<mapsto> cents 1]
   \<and> sumOfValues (categories_mt (summaryEntry centExpensesMarch march15 0)) = sixCentsUp
   \<and> total_mt (summaryEntry centExpensesMarch march15 0)
       \<noteq> sumOfValues (categories_mt (summaryEntry centExpensesMarch march15 0))"
proof -
  let ?mt = "summaryEntry centExpensesMarch march15 0"
  have sel: "filter (\<lambda>e. prefix ''2024-03'' (date e)) centExpensesMarch
     = [sampleExpense (cents 1) food ''2024-03-01'',
        sampleExpense (cents 1) housing ''2024-03-02'',
        sampleExpense (cents 4) food ''2024-03-03'']"
    by (simp add: centExpensesMarch_def sampleExpense_def)
  have nth: "getLastSixMonthsSummary centExpensesMarch march15 ! 5 = ?mt"
    by (simp add: getLastSixMonthsSummary_entries)
  have key: "month_mt ?mt = ''2024-03''"
    by (simp add: summaryEntry_fields offsetKey_march15)
  have total: "total_mt ?mt = cents 6"
    by (simp only: summaryEntry_fields offsetKey_march15 spent_in_month sel cent_total)
  have cats: "categories_mt ?mt = [food \<mapsto> cents 5, housing \<mapsto> cents 1]"
    by (simp only: summaryEntry_fields offsetKey_march15 calculateExpensesByCategory_def
        filterExpensesByMonth_prefix sel cent_categories)
  show ?thesis
    using sixCentsUp_differs by (simp only: nth key total cats cent_sumOfValues) simp
qed

text \<open>
  Claim C10, amended. For every entry that \<^const>\<open>getLastSixMonthsSummary\<close> produces: a
  category is a key of the entry's per-category map exactly when some expense whose date
  starts with the entry's month key has that category; the total is the sum of the
  amounts of the expenses whose date starts with the entry's month key, and the value of
  a category is the sum of the amounts of those among them that have the category, both
  added in double arithmetic in the order of the collection; and the total equals the sum
  of the values of the per-category map whenever the amounts of those expenses are whole
  numbers that sum to less than \<open>2 ^ 53\<close>, so that no addition rounds.
\<close>

theorem monthly_total_entries_consistent:
  "\<forall>mt\<in>set (getLastSixMonthsSummary es now).
     (\<forall>c. c \<in> dom (categories_mt mt) \<longleftrightarrow>
            (\<exists>e\<in>set es. prefix (month_mt mt) (date e) \<and> category e = c))
     \<and> total_mt mt = doubleSum (map amount (filter (\<lambda>e. prefix (month_mt mt) (date e)) es))
     \<and> (\<forall>c v. categories_mt mt c = Some v \<longrightarrow>
          v = doubleSum (map amount (filter (\<lambda>e. category e = c)
                (filter (\<lambda>e. prefix (month_mt mt) (date e)) es))))
     \<and> (wholeAmounts (filter (\<lambda>e. prefix (month_mt mt) (date e)) es) \<longrightarrow>
          total_mt mt = sumOfValues (categories_mt mt))"
  using summaryEntry_keys summaryEntry_total summaryEntry_whole summaryEntry_values
  by (simp add: getLastSixMonthsSummary_entries)

theorem monthly_total_entries_consistent_witness:
  "getLastSixMonthsSummary winterExpenses march15 ! 4 = summaryEntry winterExpenses march15 1
   \<and> month_mt (summaryEntry winterExpenses march15 1) = ''2024-02''
   \<and> dom (categories_mt (summaryEntry winterExpenses march15 1)) = {food, housing}
   \<and> categories_mt (summaryEntry winterExpenses march15 1) food = Some 45
   \<and> total_mt (summaryEntry winterExpenses march15 1) = 70
   \<and> sumOfValues (categories_mt (summaryEntry winterExpenses march15 1)) = 70"
proof -
  let ?mt = "summaryEntry winterExpenses march15 1"
  let ?feb = "[sampleExpense 40 food ''2024-02-10'', sampleExpense 25 housing ''2024-02-11'',
               sampleExpense 5 food ''2024-02-28'']"
  have nth: "getLastSixMonthsSummary winterExpenses march15 ! 4 = ?mt"
    by (simp add: getLastSixMonthsSummary_entries)
  have mem: "?mt \<in> set (getLastSixMonthsSummary winterExpenses march15)"
    by (simp add: getLastSixMonthsSummary_entries)
  have key: "month_mt ?mt = ''2024-02''"
    by (simp add: summaryEntry_fields offsetKey_march15)
  have sel: "filter (\<lambda>e. prefix ''2024-02'' (date e)) winterExpenses = ?feb"
    by (simp add: winterExpenses_def sampleExpense_def)
  have whole: "wholeAmounts ?feb"
    by (simp add: wholeAmounts_def sampleExpense_def isWhole_def)
  from monthly_total_entries_consistent [of winterExpenses march15] mem
  have keys: "\<And>c. c \<in> dom (categories_mt ?mt) \<longleftrightarrow>
                 (\<exists>e\<in>set winterExpenses. prefix (month_mt ?mt) (date e) \<and> category e = c)"
    and total: "total_mt ?mt
                  = doubleSum (map amount (filter (\<lambda>e. prefix (month_mt ?mt) (date e)) winterExpenses))"
    and amounts: "\<And>c v. categories_mt ?mt c = Some v \<Longrightarrow>
                   v = doubleSum (map amount (filter (\<lambda>e. category e = c)
                         (filter (\<lambda>e. prefix (month_mt ?mt) (date e)) winterExpenses)))"
    and sum: "wholeAmounts (filter (\<lambda>e. prefix (month_mt ?mt) (date e)) winterExpenses)
                \<Longrightarrow> total_mt ?mt = sumOfValues (categories_mt ?mt)"
    by blast+
  have "(\<exists>e\<in>set winterExpenses. prefix ''2024-02'' (date e) \<and> category e = c)
          \<longleftrightarrow> c = food \<or> c = housing" for c
    by (auto simp: winterExpenses_def sampleExpense_def)
  with keys have "c \<in> dom (categories_mt ?mt) \<longleftrightarrow> c = food \<or> c = housing" for c
    by (simp only: key)
  then have dom: "dom (categories_mt ?mt) = {food, housing}"
    by blast
  then obtain v where v: "categories_mt ?mt food = Some v"
    by blast
  have "filter (\<lambda>e. category e = food) ?feb
          = [sampleExpense 40 food ''2024-02-10'', sampleExpense 5 food ''2024-02-28'']"
    by (simp add: sampleExpense_def)
  moreover have "doubleSum (map amount
          [sampleExpense 40 food ''2024-02-10'', sampleExpense 5 food ''2024-02-28'']) = 45"
    using round64_of_nat [of 40] round64_of_nat [of 45]
    by (simp add: doubleSum_Cons doubleSum_Nil fadd_def sampleExpense_def)
  ultimately have "v = 45"
    using amounts [OF v] by (simp only: key sel)
  with v have food: "categories_mt ?mt food = Some 45"
    by simp
  have "doubleSum (map amount ?feb) = sum_list (map amount ?feb)"
    using whole by (rule doubleSum_wholeAmounts)
  then have "doubleSum (map amount ?feb) = 70"
    by (simp add: sampleExpense_def)
  with total have t: "total_mt ?mt = 70"
    by (simp only: key sel)
  have "total_mt ?mt = sumOfValues (categories_mt ?mt)"
    by (rule sum) (simp only: key sel whole)
  with t have s: "sumOfValues (categories_mt ?mt) = 70" by simp
  show ?thesis
    using nth key dom food t s by simp
qed

lemma find_first:
  "(\<forall>x\<in>set pre. \<not> P x) \<Longrightarrow> P b \<Longrightarrow> find P (pre @ b # post) = Some b"
  by (induction pre) simp_all

text \<open>
  Claim C9. If some budget of the list has the month asked for, \<^const>\<open>getCurrentBudget\<close>
  returns the first such budget unchanged. Otherwise it returns a default budget for that
  month with the freshly drawn id, total budget 0 and an empty per-category map, and the
  budget progress computed for it is 0 whatever the expenses are.
\<close>

theorem current_budget:
  "(\<forall>pre b post. bs = pre @ b # post \<and> (\<forall>x\<in>set pre. month x \<noteq> m) \<and> month b = m \<longrightarrow>
      getCurrentBudget bs m uuid = b)
   \<and> ((\<forall>b\<in>set bs. month b \<noteq> m) \<longrightarrow>
        getCurrentBudget bs m uuid
          = \<lparr>id_b = uuid, month = m, categories = Map.empty, totalBudget = 0, userId_b = None\<rparr>
        \<and> calculateBudgetProgress (getCurrentBudget bs m uuid) es = Some 0)"
proof (intro conjI allI impI)
  fix pre b post
  assume "bs = pre @ b # post \<and> (\<forall>x\<in>set pre. month x \<noteq> m) \<and> month b = m"
  then have "find (\<lambda>b. month b = m) bs = Some b"
    by (simp add: find_first)
  then show "getCurrentBudget bs m uuid = b"
    by (simp add: getCurrentBudget_def)
next
  assume "\<forall>b\<in>set bs. month b \<noteq> m"
  then have "find (\<lambda>b. month b = m) bs = None"
    by (simp add: find_None_iff)
  then show default: "getCurrentBudget bs m uuid
          = \<lparr>id_b = uuid, month = m, categories = Map.empty, totalBudget = 0, userId_b = None\<rparr>"
    by (simp add: getCurrentBudget_def)
  show "calculateBudgetProgress (getCurrentBudget bs m uuid) es = Some 0"
    by (simp add: default calculateBudgetProgress_def)
qed

theorem current_budget_witness:
  "getCurrentBudget [foodBudget\<lparr>month := ''2024-05''\<rparr>, foodBudget, foodBudget\<lparr>id_b := ''b2''\<rparr>]
     ''2024-06'' ''fresh'' = foodBudget
   \<and> getCurrentBudget [foodBudget] ''2024-07'' ''fresh''
       = \<lparr>id_b = ''fresh'', month = ''2024-07'', categories = Map.empty, totalBudget = 0,
          userId_b = None\<rparr>
   \<and> calculateBudgetProgress (getCurrentBudget [foodBudget] ''2024-07'' ''fresh'') juneExpenses
       = Some 0"
proof -
  let ?bs = "[foodBudget\<lparr>month := ''2024-05''\<rparr>, foodBudget, foodBudget\<lparr>id_b := ''b2''\<rparr>]"
  have split: "?bs = [foodBudget\<lparr>month := ''2024-05''\<rparr>] @ foodBudget # [foodBudget\<lparr>id_b := ''b2''\<rparr>]
      \<and> (\<forall>x\<in>set [foodBudget\<lparr>month := ''2024-05''\<rparr>]. month x \<noteq> ''2024-06'')
      \<and> month foodBudget = ''2024-06''"
    by (simp add: foodBudget_def)
  have first: "getCurrentBudget ?bs ''2024-06'' ''fresh'' = foodBudget"
    using current_budget [of ?bs "''2024-06''" "''fresh''" juneExpenses] split by blast
  have none: "\<forall>b\<in>set [foodBudget]. month b \<noteq> ''2024-07''"
    by (simp add: foodBudget_def)
  show ?thesis
    using first current_budget [of "[foodBudget]" "''2024-07''" "''fresh''" juneExpenses] none
    by blast
qed

section \<open>Properties of the category taxonomy and of the funding operation\<close>

lemma categoryIds:
  "map categoryId getCategories =
     [''housing'', ''transportation'', ''food'', ''utilities'', ''insurance'', ''healthcare'',
      ''entertainment'', ''personal'', ''education'', ''debt'', ''savings'', ''gifts'', ''other'']"
  by (simp add: getCategories_def)

lemma categoryMap_keys: "map fst categoryMap = map categoryId getCategories"
  by (simp add: categoryMap_def getCategories_def)

lemma getCategoryColors_keys: "set (map fst getCategoryColors) = set (map categoryId getCategories)"
  by (simp add: getCategoryColors_def getCategories_def insert_commute)

lemma getPrettyCategoryName_fallback:
  assumes "s \<notin> set (map categoryId getCategories)" and "s \<notin> set objectPrototypeKeys"
  shows "getPrettyCategoryName s = JSString s"
proof -
  have "s \<notin> fst ` set categoryMap"
    using assms(1) categoryMap_keys by (metis set_map)
  then have "map_of categoryMap s = None"
    by (simp add: map_of_eq_None_iff)
  then have "getProperty categoryMap s = Undefined"
    using assms(2) by (simp add: getProperty_def)
  then show ?thesis
    by (simp add: getPrettyCategoryName_def)
qed

lemma pretty_names:
  "map (\<lambda>c. getPrettyCategoryName (categoryId c)) getCategories =
     [JSString ''Housing'', JSString ''Transportation'', JSString ''Food & Dining'',
      JSString ''Utilities'', JSString ''Insurance'', JSString ''Healthcare'',
      JSString ''Entertainment'', JSString ''Personal'', JSString ''Education'',
      JSString ''Debt Payments'', JSString ''Savings'', JSString ''Gifts & Donations'',
      JSString ''Other'']"
  by (simp add: getCategories_def getPrettyCategoryName_def getProperty_def categoryMap_def)

lemma category_colors:
  "map (\<lambda>c. getProperty getCategoryColors (categoryId c)) getCategories =
     [JSString ''#0D9488'', JSString ''#8B5CF6'', JSString ''#22c55e'', JSString ''#f59e0b'',
      JSString ''#3b82f6'', JSString ''#ef4444'', JSString ''#ec4899'', JSString ''#8b5cf6'',
      JSString ''#14b8a6'', JSString ''#f43f5e'', JSString ''#06b6d4'', JSString ''#a855f7'',
      JSString ''#6b7280'']"
  by (simp add: getCategories_def getProperty_def getCategoryColors_def)

lemma getPrettyCategoryName_inherited:
  assumes "s \<in> set objectPrototypeKeys"
  shows "getPrettyCategoryName s = PrototypeMember s"
proof -
  have "s \<notin> fst ` set categoryMap"
    using assms by (auto simp add: categoryMap_def objectPrototypeKeys_def)
  then have "map_of categoryMap s = None"
    by (simp add: map_of_eq_None_iff)
  then have "getProperty categoryMap s = PrototypeMember s"
    using assms by (simp add: getProperty_def)
  then show ?thesis
    by (simp add: getPrettyCategoryName_def)
qed

lemma inherited_keys_unrecognized:
  "s \<in> set objectPrototypeKeys \<Longrightarrow> s \<notin> set (map categoryId getCategories)"
  by (auto simp add: categoryIds objectPrototypeKeys_def)

text \<open>
  Claim C8. \<^const>\<open>getCategories\<close> is the fixed ordered list of exactly 13 identifiers, all
  distinct, and they are all the values of the type. \<^const>\<open>getPrettyCategoryName\<close> gives
  each of the 13 its display label, and \<^const>\<open>getCategoryColors\<close> has a colour for each of
  the 13. For a string that is none of the 13 the claim promises the raw string, and that
  is what \<^verbatim>\<open>categoryMap[category] || category\<close> returns for every such string but twelve:
  for the name of a member of \<^verbatim>\<open>Object.prototype\<close> (\<^verbatim>\<open>constructor\<close>, \<^verbatim>\<open>toString\<close>,
  \<^verbatim>\<open>valueOf\<close>, ...), which is none of the 13 either, \<^verbatim>\<open>categoryMap[category]\<close> is the
  member that the object literal inherits; it is truthy, so the fallback is not reached
  and the function returns the member, which is not a string, where the claim promises
  the raw string.
\<close>

theorem category_taxonomy:
  "getCategories =
     [housing, transportation, food, utilities, insurance, healthcare, entertainment,
      personal, education, debt, savings, gifts, other]
   \<and> length getCategories = 13 \<and> distinct getCategories \<and> set getCategories = UNIV
   \<and> map categoryId getCategories =
     [''housing'', ''transportation'', ''food'', ''utilities'', ''insurance'', ''healthcare'',
      ''entertainment'', ''personal'', ''education'', ''debt'', ''savings'', ''gifts'', ''other'']
   \<and> map (\<lambda>c. getPrettyCategoryName (categoryId c)) getCategories =
     [JSString ''Housing'', JSString ''Transportation'', JSString ''Food & Dining'',
      JSString ''Utilities'', JSString ''Insurance'', JSString ''Healthcare'',
      JSString ''Entertainment'', JSString ''Personal'', JSString ''Education'',
      JSString ''Debt Payments'', JSString ''Savings'', JSString ''Gifts & Donations'',
      JSString ''Other'']
   \<and> (\<forall>s. s \<notin> set (map categoryId getCategories) \<and> s \<notin> set objectPrototypeKeys \<longrightarrow>
          getPrettyCategoryName s = JSString s)
   \<and> (\<forall>s. s \<in> set objectPrototypeKeys \<longrightarrow>
          s \<notin> set (map categoryId getCategories)
          \<and> getPrettyCategoryName s = PrototypeMember s
          \<and> getPrettyCategoryName s \<noteq> JSString s)
   \<and> map (\<lambda>c. getProperty getCategoryColors (categoryId c)) getCategories =
     [JSString ''#0D9488'', JSString ''#8B5CF6'', JSString ''#22c55e'', JSString ''#f59e0b'',
      JSString ''#3b82f6'', JSString ''#ef4444'', JSString ''#ec4899'', JSString ''#8b5cf6'',
      JSString ''#14b8a6'', JSString ''#f43f5e'', JSString ''#06b6d4'', JSString ''#a855f7'',
      JSString ''#6b7280'']"
proof -
  have "getCategories =
     [housing, transportation, food, utilities, insurance, healthcare, entertainment,
      personal, education, debt, savings, gifts, other]"
    by (rule getCategories_def)
  moreover have "length getCategories = 13"
    by (simp add: getCategories_def)
  moreover have "\<forall>s. s \<notin> set (map categoryId getCategories) \<and> s \<notin> set objectPrototypeKeys \<longrightarrow>
          getPrettyCategoryName s = JSString s"
    using getPrettyCategoryName_fallback by blast
  moreover have "\<forall>s. s \<in> set objectPrototypeKeys \<longrightarrow>
          s \<notin> set (map categoryId getCategories)
          \<and> getPrettyCategoryName s = PrototypeMember s
          \<and> getPrettyCategoryName s \<noteq> JSString s"
    using getPrettyCategoryName_inherited inherited_keys_unrecognized by simp
  ultimately show ?thesis
    using distinct_getCategories set_getCategories categoryIds pretty_names category_colors
    by blast
qed

theorem category_taxonomy_witness:
  "''pets'' \<notin> set (map categoryId getCategories) \<and> ''pets'' \<notin> set objectPrototypeKeys
   \<and> getPrettyCategoryName ''pets'' = JSString ''pets''
   \<and> ''constructor'' \<in> set objectPrototypeKeys
   \<and> ''constructor'' \<notin> set (map categoryId getCategories)
   \<and> getPrettyCategoryName ''constructor'' = PrototypeMember ''constructor''
   \<and> getPrettyCategoryName ''constructor'' \<noteq> JSString ''constructor''"
proof -
  have pets: "''pets'' \<notin> set (map categoryId getCategories) \<and> ''pets'' \<notin> set objectPrototypeKeys"
    by (simp add: categoryIds objectPrototypeKeys_def)
  have constructor: "''constructor'' \<in> set objectPrototypeKeys"
    by (simp add: objectPrototypeKeys_def)
  from category_taxonomy pets constructor show ?thesis
    by blast
qed










section \<open>Properties of the core functions on the heap\<close>

lemma those_eq_Some: "those xs = Some ys \<longleftrightarrow> xs = map Some ys"
proof (induction xs arbitrary: ys)
  case Nil
  show ?case by auto
next
  case (Cons x xs)
  show ?case
  proof (cases x)
    case None
    then show ?thesis by (cases ys) auto
  next
    case (Some a)
    then show ?thesis by (cases ys) (auto simp add: Cons.IH)
  qed
qed

lemma unchanged_refl: "unchanged w w"
  by (simp add: unchanged_def)

lemma unchanged_length: "unchanged w w' \<Longrightarrow> length (heap w) \<le> length (heap w')"
proof -
  assume "unchanged w w'"
  then have "take (length (heap w)) (heap w') = heap w"
    by (simp add: unchanged_def split: if_splits)
  then have "length (take (length (heap w)) (heap w')) = length (heap w)"
    by simp
  then show ?thesis
    by simp
qed

lemma unchanged_nth:
  assumes "unchanged w w'" and "r < length (heap w)"
  shows "heap w' ! r = heap w ! r"
proof -
  from assms(1) have t: "take (length (heap w)) (heap w') = heap w"
    by (simp add: unchanged_def split: if_splits)
  have "take (length (heap w)) (heap w') ! r = heap w' ! r"
    using assms(2) by simp
  then show ?thesis
    by (simp add: t)
qed

lemma unchanged_clock: "unchanged w w' \<Longrightarrow> clock w' = clock w"
  by (simp add: unchanged_def split: if_splits)

lemma unchanged_trans:
  assumes "unchanged w w'" and "unchanged w' w''"
  shows "unchanged w w''"
proof -
  have len: "length (heap w) \<le> length (heap w')"
    by (rule unchanged_length [OF assms(1)])
  from assms(1) have t1: "take (length (heap w)) (heap w') = heap w"
    by (simp add: unchanged_def split: if_splits)
  from assms(2) have t2: "take (length (heap w')) (heap w'') = heap w'"
    by (simp add: unchanged_def split: if_splits)
  have "take (length (heap w)) (heap w'')
          = take (length (heap w)) (take (length (heap w')) (heap w''))"
    using len by (simp add: min_absorb1)
  also have "\<dots> = heap w"
    by (simp only: t2 t1)
  finally have "take (length (heap w)) (heap w'') = heap w" .
  moreover have "clock w'' = clock w"
    by (simp add: unchanged_clock [OF assms(1)] unchanged_clock [OF assms(2)])
  ultimately show ?thesis
    by (simp add: unchanged_def)
qed

lemma unchanged_alloc: "unchanged w (snd (alloc obj w))"
  by (simp add: unchanged_def alloc_def)

lemma unchanged_append: "unchanged w (w\<lparr>heap := heap w @ objs\<rparr>)"
  by (simp add: unchanged_def)

lemma unchanged_store:
  assumes "unchanged w w'" and "length (heap w) \<le> r"
  shows "unchanged w (store r obj w')"
  using assms by (simp add: unchanged_def store_def split: if_splits)

lemma objectAt_unchanged:
  assumes "unchanged w w'" and "objectAt w r = Some obj"
  shows "objectAt w' r = Some obj"
proof -
  from assms(2) have r: "r < length (heap w)" and o: "heap w ! r = obj"
    by (simp_all add: objectAt_def split: if_splits)
  have "r < length (heap w')"
    using r unchanged_length [OF assms(1)] by simp
  then show ?thesis
    by (simp add: objectAt_def unchanged_nth [OF assms(1) r] o)
qed

lemma objectAt_Some_cases:
  "expenseAt w r = Some e \<longleftrightarrow> objectAt w r = Some (ExpenseObject e)"
  "budgetAt w r = Some b \<longleftrightarrow> objectAt w r = Some (BudgetObject b)"
  "goalAt w r = Some g \<longleftrightarrow> objectAt w r = Some (GoalObject g)"
  "amountsAt w r = Some m \<longleftrightarrow> objectAt w r = Some (AmountsObject m)"
  "monthlyTotalAt w r = Some t \<longleftrightarrow> objectAt w r = Some (MonthlyTotalObject t)"
  "arrayAt w r = Some refs \<longleftrightarrow> objectAt w r = Some (ArrayObject refs)"
  by (simp_all add: expenseAt_def budgetAt_def goalAt_def amountsAt_def monthlyTotalAt_def
      arrayAt_def split: option.splits JSObject.splits)

lemma readers_unchanged:
  assumes "unchanged w w'"
  shows "expenseAt w r = Some e \<Longrightarrow> expenseAt w' r = Some e"
    and "budgetAt w r = Some b \<Longrightarrow> budgetAt w' r = Some b"
    and "goalAt w r = Some g \<Longrightarrow> goalAt w' r = Some g"
    and "amountsAt w r = Some m \<Longrightarrow> amountsAt w' r = Some m"
    and "monthlyTotalAt w r = Some t \<Longrightarrow> monthlyTotalAt w' r = Some t"
    and "arrayAt w r = Some refs \<Longrightarrow> arrayAt w' r = Some refs"
  by (simp_all only: objectAt_Some_cases objectAt_unchanged [OF assms])

lemma expenses_unchanged:
  assumes "unchanged w w'"
  shows "map (expenseAt w) refs = map Some es \<Longrightarrow> map (expenseAt w') refs = map Some es"
proof (induction refs arbitrary: es)
  case Nil
  then show ?case by simp
next
  case (Cons r rs)
  then obtain e es' where es: "es = e # es'"
    by (cases es) auto
  from Cons.prems have "expenseAt w r = Some e" and "map (expenseAt w) rs = map Some es'"
    by (simp_all add: es)
  then show ?case
    by (simp add: es readers_unchanged(1) [OF assms] Cons.IH)
qed

lemma monthlyTotals_unchanged:
  assumes "unchanged w w'"
  shows "map (monthlyTotalAt w) refs = map Some ts \<Longrightarrow> map (monthlyTotalAt w') refs = map Some ts"
proof (induction refs arbitrary: ts)
  case Nil
  then show ?case by simp
next
  case (Cons r rs)
  then obtain t ts' where ts: "ts = t # ts'"
    by (cases ts) auto
  from Cons.prems have "monthlyTotalAt w r = Some t"
    and "map (monthlyTotalAt w) rs = map Some ts'"
    by (simp_all add: ts)
  then show ?case
    by (simp add: ts readers_unchanged(5) [OF assms] Cons.IH)
qed

lemma expensesAt_iff:
  "expensesAt w r = Some es \<longleftrightarrow>
     (\<exists>refs. arrayAt w r = Some refs \<and> map (expenseAt w) refs = map Some es)"
  by (simp add: expensesAt_def those_eq_Some split: option.splits)

lemma monthlyTotalsAt_iff:
  "monthlyTotalsAt w r = Some ts \<longleftrightarrow>
     (\<exists>refs. arrayAt w r = Some refs \<and> map (monthlyTotalAt w) refs = map Some ts)"
  by (simp add: monthlyTotalsAt_def those_eq_Some split: option.splits)

lemma expensesAt_unchanged:
  assumes "unchanged w w'" and "expensesAt w r = Some es"
  shows "expensesAt w' r = Some es"
  using assms(2) readers_unchanged(6) [OF assms(1)] expenses_unchanged [OF assms(1)]
  unfolding expensesAt_iff by blast

lemma expensesAt_below: "expensesAt w r = Some es \<Longrightarrow> r < length (heap w)"
  by (auto simp add: expensesAt_iff objectAt_Some_cases objectAt_def split: if_splits)

subsection \<open>The array methods\<close>

lemma filterRefs_spec:
  "map (expenseAt w) refs = map Some es \<Longrightarrow>
     \<exists>kept. filterRefs w p refs = Some kept
          \<and> map (expenseAt w) kept = map Some (filter p es)"
proof (induction refs arbitrary: es)
  case Nil
  then show ?case by simp
next
  case (Cons r rs)
  then obtain e es' where es: "es = e # es'"
    by (cases es) auto
  from Cons.prems have e: "expenseAt w r = Some e" and rest: "map (expenseAt w) rs = map Some es'"
    by (simp_all add: es)
  from Cons.IH [OF rest] obtain kept where
    k: "filterRefs w p rs = Some kept" "map (expenseAt w) kept = map Some (filter p es')"
    by blast
  show ?case
    by (simp add: es e k)
qed

lemma arrayFilter_spec:
  assumes "expensesAt w r = Some es"
  shows "\<exists>kept. arrayFilter p r w
                  = Some (length (heap w), w\<lparr>heap := heap w @ [ArrayObject kept]\<rparr>)
              \<and> map (expenseAt w) kept = map Some (filter p es)"
proof -
  from assms obtain refs where
    a: "arrayAt w r = Some refs" and m: "map (expenseAt w) refs = map Some es"
    unfolding expensesAt_iff by blast
  from filterRefs_spec [OF m] obtain kept where
    k: "filterRefs w p refs = Some kept" "map (expenseAt w) kept = map Some (filter p es)"
    by blast
  show ?thesis
    using k(2) by (auto simp add: arrayFilter_def a k(1) alloc_def)
qed

lemma arrayAt_new:
  "arrayAt (w\<lparr>heap := heap w @ [ArrayObject refs]\<rparr>) (length (heap w)) = Some refs"
  by (simp add: arrayAt_def objectAt_def)

lemma arrayFilter_result:
  assumes "expensesAt w r = Some es"
  obtains r' w' where "arrayFilter p r w = Some (r', w')"
    and "unchanged w w'"
    and "expensesAt w' r' = Some (filter p es)"
proof -
  from arrayFilter_spec [OF assms] obtain kept where
    f: "arrayFilter p r w = Some (length (heap w), w\<lparr>heap := heap w @ [ArrayObject kept]\<rparr>)"
    and k: "map (expenseAt w) kept = map Some (filter p es)"
    by blast
  let ?w = "w\<lparr>heap := heap w @ [ArrayObject kept]\<rparr>"
  have u: "unchanged w ?w"
    by (rule unchanged_append)
  have "map (expenseAt ?w) kept = map Some (filter p es)"
    by (rule expenses_unchanged [OF u k])
  then have "expensesAt ?w (length (heap w)) = Some (filter p es)"
    unfolding expensesAt_iff using arrayAt_new by blast
  with f u show ?thesis
    by (rule that)
qed

lemma reduceRefs_spec:
  "map (expenseAt w) refs = map Some es \<Longrightarrow> reduceRefs w f acc refs = Some (foldl f acc es)"
proof (induction refs arbitrary: es acc)
  case Nil
  then show ?case by simp
next
  case (Cons r rs)
  then obtain e es' where es: "es = e # es'"
    by (cases es) auto
  from Cons.prems have e: "expenseAt w r = Some e" and rest: "map (expenseAt w) rs = map Some es'"
    by (simp_all add: es)
  show ?case
    by (simp add: es e Cons.IH [OF rest])
qed

lemma arrayReduce_spec:
  assumes "expensesAt w r = Some es"
  shows "arrayReduce f init r w = Some (foldl f init es)"
proof -
  from assms obtain refs where
    a: "arrayAt w r = Some refs" and m: "map (expenseAt w) refs = map Some es"
    unfolding expensesAt_iff by blast
  show ?thesis
    by (simp add: arrayReduce_def a reduceRefs_spec [OF m])
qed

lemma readers_store_amounts:
  assumes "amountsAt w c = Some acc"
  shows "expenseAt (store c (AmountsObject m) w) r = expenseAt w r"
    and "arrayAt (store c (AmountsObject m) w) r = arrayAt w r"
    and "monthlyTotalAt (store c (AmountsObject m) w) r = monthlyTotalAt w r"
    and "amountsAt (store c (AmountsObject m) w) c = Some m"
  using assms
  by (auto simp add: expenseAt_def arrayAt_def monthlyTotalAt_def amountsAt_def objectAt_def
      store_def nth_list_update split: if_splits option.splits JSObject.splits)

lemma store_store: "store c x (store c y w) = store c x w"
  by (simp add: store_def)

lemma store_same:
  assumes "amountsAt w c = Some acc"
  shows "store c (AmountsObject acc) w = w"
proof -
  from assms have "heap w ! c = AmountsObject acc"
    by (simp add: objectAt_Some_cases objectAt_def split: if_splits)
  then have "(heap w)[c := AmountsObject acc] = heap w"
    by (metis list_update_id)
  then show ?thesis
    by (simp add: store_def)
qed

lemma forEachRefs_add:
  "map (expenseAt w) refs = map Some es \<Longrightarrow> amountsAt w c = Some acc \<Longrightarrow>
     forEachRefs (addToCategoryJS c) refs w
       = Some (store c (AmountsObject (foldl addToCategory acc es)) w)"
proof (induction refs arbitrary: es acc w)
  case Nil
  then show ?case by (simp add: store_same)
next
  case (Cons r rs)
  then obtain e es' where es: "es = e # es'"
    by (cases es) auto
  from Cons.prems have e: "expenseAt w r = Some e" and rest: "map (expenseAt w) rs = map Some es'"
    by (simp_all add: es)
  let ?w = "store c (AmountsObject (addToCategory acc e)) w"
  have step: "addToCategoryJS c e w = Some ?w"
    by (simp add: addToCategoryJS_def Cons.prems(2))
  have "expenseAt ?w = expenseAt w"
    by (rule ext) (rule readers_store_amounts(1) [OF Cons.prems(2)])
  then have rest': "map (expenseAt ?w) rs = map Some es'"
    using rest by simp
  have acc': "amountsAt ?w c = Some (addToCategory acc e)"
    by (rule readers_store_amounts(4) [OF Cons.prems(2)])
  show ?case
    by (simp add: es e step Cons.IH [OF rest' acc'] store_store)
qed

lemma arrayForEach_add:
  assumes "expensesAt w r = Some es" and "amountsAt w c = Some acc"
  shows "arrayForEach (addToCategoryJS c) r w
           = Some (store c (AmountsObject (foldl addToCategory acc es)) w)"
proof -
  from assms(1) obtain refs where
    a: "arrayAt w r = Some refs" and m: "map (expenseAt w) refs = map Some es"
    unfolding expensesAt_iff by blast
  show ?thesis
    by (simp add: arrayForEach_def a forEachRefs_add [OF m assms(2)])
qed

subsection \<open>The aggregation functions and the progress calculators\<close>

lemma filterExpensesByMonthJS_result:
  assumes "expensesAt w r = Some es"
  obtains r' w' where "filterExpensesByMonthJS r m w = Some (r', w')"
    and "unchanged w w'"
    and "expensesAt w' r' = Some (filterExpensesByMonth es m)"
  unfolding filterExpensesByMonthJS_def filterExpensesByMonth_def
  using arrayFilter_result [OF assms] by metis

lemma filterExpensesByMonthJS_refines:
  assumes "expensesAt w r = Some es"
  shows "preserves w (filterExpensesByMonthJS r m w)"
    and "expensesOf (filterExpensesByMonthJS r m w) = Some (filterExpensesByMonth es m)"
proof -
  from filterExpensesByMonthJS_result [OF assms] obtain r' w' where
    f: "filterExpensesByMonthJS r m w = Some (r', w')" and u: "unchanged w w'"
    and e: "expensesAt w' r' = Some (filterExpensesByMonth es m)"
    by metis
  show "preserves w (filterExpensesByMonthJS r m w)"
    by (simp add: preserves_def f u)
  show "expensesOf (filterExpensesByMonthJS r m w) = Some (filterExpensesByMonth es m)"
    by (simp add: expensesOf_def f e)
qed

lemma calculateMonthlyTotalJS_result:
  assumes "expensesAt w r = Some es"
  obtains w' where "calculateMonthlyTotalJS r m w = Some (calculateMonthlyTotal es m, w')"
    and "unchanged w w'"
proof -
  from filterExpensesByMonthJS_result [OF assms] obtain r' w' where
    f: "filterExpensesByMonthJS r m w = Some (r', w')" and u: "unchanged w w'"
    and e: "expensesAt w' r' = Some (filterExpensesByMonth es m)"
    by metis
  have "calculateMonthlyTotalJS r m w = Some (calculateMonthlyTotal es m, w')"
    by (simp add: calculateMonthlyTotalJS_def f arrayReduce_spec [OF e]
        calculateMonthlyTotal_def sumAmounts_def)
  then show ?thesis
    using u by (rule that)
qed

lemma calculateMonthlyTotalJS_refines:
  assumes "expensesAt w r = Some es"
  shows "preserves w (calculateMonthlyTotalJS r m w)"
    and "valueOf (calculateMonthlyTotalJS r m w) = Some (calculateMonthlyTotal es m)"
proof -
  from calculateMonthlyTotalJS_result [OF assms] obtain w' where
    f: "calculateMonthlyTotalJS r m w = Some (calculateMonthlyTotal es m, w')"
    and u: "unchanged w w'"
    by metis
  show "preserves w (calculateMonthlyTotalJS r m w)"
    by (simp add: preserves_def f u)
  show "valueOf (calculateMonthlyTotalJS r m w) = Some (calculateMonthlyTotal es m)"
    by (simp add: valueOf_def f)
qed

lemma amountsAt_new:
  "amountsAt (w\<lparr>heap := heap w @ [AmountsObject m]\<rparr>) (length (heap w)) = Some m"
  by (simp add: amountsAt_def objectAt_def)

lemma calculateExpensesByCategoryJS_refines:
  assumes "expensesAt w r = Some es"
  shows "preserves w (calculateExpensesByCategoryJS r m w)"
    and "amountsOf (calculateExpensesByCategoryJS r m w)
           = Some (calculateExpensesByCategory es m)"
proof -
  let ?c = "length (heap w)"
  let ?w1 = "w\<lparr>heap := heap w @ [AmountsObject Map.empty]\<rparr>"
  have u1: "unchanged w ?w1"
    by (rule unchanged_append)
  have e1: "expensesAt ?w1 r = Some es"
    by (rule expensesAt_unchanged [OF u1 assms])
  from filterExpensesByMonthJS_result [OF e1] obtain r' w2 where
    f: "filterExpensesByMonthJS r m ?w1 = Some (r', w2)" and u2: "unchanged ?w1 w2"
    and e2: "expensesAt w2 r' = Some (filterExpensesByMonth es m)"
    by metis
  have a2: "amountsAt w2 ?c = Some Map.empty"
    by (rule readers_unchanged(4) [OF u2 amountsAt_new])
  let ?w3 = "store ?c (AmountsObject (calculateExpensesByCategory es m)) w2"
  have each: "arrayForEach (addToCategoryJS ?c) r' w2 = Some ?w3"
    by (simp add: arrayForEach_add [OF e2 a2] calculateExpensesByCategory_def
        groupByCategory_def)
  have call: "calculateExpensesByCategoryJS r m w = Some (?c, ?w3)"
    by (simp add: calculateExpensesByCategoryJS_def alloc_def f each)
  have "unchanged w w2"
    by (rule unchanged_trans [OF u1 u2])
  then have u3: "unchanged w ?w3"
    by (rule unchanged_store) simp
  show "preserves w (calculateExpensesByCategoryJS r m w)"
    by (simp add: preserves_def call u3)
  show "amountsOf (calculateExpensesByCategoryJS r m w)
          = Some (calculateExpensesByCategory es m)"
    by (simp add: amountsOf_def call readers_store_amounts(4) [OF a2])
qed

lemma calculateBudgetProgressJS_refines:
  assumes "budgetAt w b = Some budget" and "expensesAt w r = Some es"
  shows "preserves w (calculateBudgetProgressJS b r w)"
    and "valueOf (calculateBudgetProgressJS b r w) = Some (calculateBudgetProgress budget es)"
proof -
  from calculateMonthlyTotalJS_result [OF assms(2)] obtain w' where
    f: "calculateMonthlyTotalJS r (month budget) w
          = Some (calculateMonthlyTotal es (month budget), w')"
    and u: "unchanged w w'"
    by metis
  show "preserves w (calculateBudgetProgressJS b r w)"
    by (simp add: preserves_def calculateBudgetProgressJS_def assms(1) f u)
  show "valueOf (calculateBudgetProgressJS b r w) = Some (calculateBudgetProgress budget es)"
    by (simp add: valueOf_def calculateBudgetProgressJS_def assms(1) f
        calculateBudgetProgress_def)
qed

lemma calculateCategoryBudgetProgressJS_refines:
  assumes "budgetAt w b = Some budget" and "expensesAt w r = Some es"
  shows "preserves w (calculateCategoryBudgetProgressJS b r c w)"
    and "valueOf (calculateCategoryBudgetProgressJS b r c w)
           = Some (calculateCategoryBudgetProgress budget es c)"
proof -
  from filterExpensesByMonthJS_result [OF assms(2)] obtain r1 w1 where
    f1: "filterExpensesByMonthJS r (month budget) w = Some (r1, w1)" and u1: "unchanged w w1"
    and e1: "expensesAt w1 r1 = Some (filterExpensesByMonth es (month budget))"
    by metis
  from arrayFilter_result [OF e1] obtain r2 w2 where
    f2: "arrayFilter (\<lambda>e. category e = c) r1 w1 = Some (r2, w2)" and u2: "unchanged w1 w2"
    and e2: "expensesAt w2 r2
               = Some (filter (\<lambda>e. category e = c) (filterExpensesByMonth es (month budget)))"
    by metis
  have u: "unchanged w w2"
    by (rule unchanged_trans [OF u1 u2])
  show "preserves w (calculateCategoryBudgetProgressJS b r c w)"
    by (simp add: preserves_def calculateCategoryBudgetProgressJS_def assms(1) f1 f2
        arrayReduce_spec [OF e2] u Let_def)
  show "valueOf (calculateCategoryBudgetProgressJS b r c w)
          = Some (calculateCategoryBudgetProgress budget es c)"
    by (simp add: valueOf_def calculateCategoryBudgetProgressJS_def assms(1) f1 f2
        arrayReduce_spec [OF e2] Let_def calculateCategoryBudgetProgress_def sumAmounts_def)
qed

lemma calculateSavingsProgressJS_refines:
  assumes "goalAt w g = Some goal"
  shows "preserves w (calculateSavingsProgressJS g w)"
    and "valueOf (calculateSavingsProgressJS g w) = Some (calculateSavingsProgress goal)"
  by (simp_all add: preserves_def valueOf_def calculateSavingsProgressJS_def assms
      unchanged_refl calculateSavingsProgress_def)

declare summaryLoopJS.simps [simp del]

subsection \<open>The rolling summary\<close>

lemma readers_store_array:
  assumes "arrayAt w r = Some xs"
  shows "monthlyTotalAt (store r (ArrayObject ys) w) q = monthlyTotalAt w q"
    and "arrayAt (store r (ArrayObject ys) w) r = Some ys"
  using assms
  by (auto simp add: monthlyTotalAt_def arrayAt_def objectAt_def store_def nth_list_update
      split: if_splits option.splits JSObject.splits)

lemma monthlyTotalAt_new:
  "monthlyTotalAt (w\<lparr>heap := heap w @ [MonthlyTotalObject t]\<rparr>) (length (heap w)) = Some t"
  by (simp add: monthlyTotalAt_def objectAt_def)

lemma summaryRoundJS_spec:
  assumes u0: "unchanged w0 w"
    and e0: "expensesAt w0 eRef = Some es"
    and len: "length (heap w0) \<le> resRef"
    and arr: "arrayAt w resRef = Some refs"
    and ts: "map (monthlyTotalAt w) refs = map Some ts"
  shows "\<exists>w' x. summaryRoundJS eRef resRef d i w = Some w'
            \<and> unchanged w0 w'
            \<and> arrayAt w' resRef = Some (refs @ [x])
            \<and> map (monthlyTotalAt w') (refs @ [x]) = map Some (ts @ [summaryEntry es d i])"
proof -
  let ?m = "formatYearMonth (setMonth d (getMonth d - i))"
  let ?fes = "filterExpensesByMonth es ?m"
  have e: "expensesAt w eRef = Some es"
    by (rule expensesAt_unchanged [OF u0 e0])
  from filterExpensesByMonthJS_result [OF e] obtain r1 w1 where
    f1: "filterExpensesByMonthJS eRef ?m w = Some (r1, w1)" and u1: "unchanged w w1"
    and e1: "expensesAt w1 r1 = Some ?fes"
    by metis
  have red: "arrayReduce (\<lambda>sum exp. fadd sum (amount exp)) 0 r1 w1 = Some (sumAmounts ?fes)"
    by (simp add: arrayReduce_spec [OF e1] sumAmounts_def)
  let ?c = "length (heap w1)"
  let ?w2 = "w1\<lparr>heap := heap w1 @ [AmountsObject Map.empty]\<rparr>"
  have u12: "unchanged w1 ?w2"
    by (rule unchanged_append)
  have e2: "expensesAt ?w2 r1 = Some ?fes"
    by (rule expensesAt_unchanged [OF u12 e1])
  have a2: "amountsAt ?w2 ?c = Some Map.empty"
    by (rule amountsAt_new)
  let ?w3 = "store ?c (AmountsObject (groupByCategory ?fes)) ?w2"
  have each: "arrayForEach (addToCategoryJS ?c) r1 ?w2 = Some ?w3"
    by (simp only: arrayForEach_add [OF e2 a2] groupByCategory_def)
  have a3: "amountsAt ?w3 ?c = Some (groupByCategory ?fes)"
    by (rule readers_store_amounts(4) [OF a2])
  have u13: "unchanged w1 ?w3"
    by (rule unchanged_store [OF u12]) simp
  let ?t = "\<lparr>month_mt = ?m, total_mt = sumAmounts ?fes, categories_mt = groupByCategory ?fes\<rparr>"
  let ?x = "length (heap ?w3)"
  let ?w4 = "?w3\<lparr>heap := heap ?w3 @ [MonthlyTotalObject ?t]\<rparr>"
  have u34: "unchanged ?w3 ?w4"
    by (rule unchanged_append)
  have u4: "unchanged w ?w4"
    by (rule unchanged_trans [OF unchanged_trans [OF u1 u13] u34])
  have arr4: "arrayAt ?w4 resRef = Some refs"
    by (rule readers_unchanged(6) [OF u4 arr])
  let ?w5 = "store resRef (ArrayObject (refs @ [?x])) ?w4"
  have call: "summaryRoundJS eRef resRef d i w = arrayPush resRef ?x ?w4"
    by (simp only: summaryRoundJS_def Let_def f1 option.case prod.case red alloc_def each a3)
  have push: "arrayPush resRef ?x ?w4 = Some ?w5"
    by (simp only: arrayPush_def arr4 option.case)
  have "unchanged w0 ?w4"
    by (rule unchanged_trans [OF u0 u4])
  then have u5: "unchanged w0 ?w5"
    by (rule unchanged_store) (rule len)
  have arr5: "arrayAt ?w5 resRef = Some (refs @ [?x])"
    by (rule readers_store_array(2) [OF arr4])
  have same: "monthlyTotalAt ?w5 = monthlyTotalAt ?w4"
    by (rule ext) (rule readers_store_array(1) [OF arr4])
  have old: "map (monthlyTotalAt ?w4) refs = map Some ts"
    by (rule monthlyTotals_unchanged [OF u4 ts])
  have new: "monthlyTotalAt ?w4 ?x = Some ?t"
    by (rule monthlyTotalAt_new)
  have entry: "?t = summaryEntry es d i"
    by (simp add: summaryEntry_def Let_def)
  have "map (monthlyTotalAt ?w5) (refs @ [?x]) = map (monthlyTotalAt ?w4) (refs @ [?x])"
    by (simp only: same)
  also have "\<dots> = map Some ts @ [Some ?t]"
    by (simp only: map_append old list.map new)
  also have "\<dots> = map Some (ts @ [summaryEntry es d i])"
    by (simp add: entry)
  finally have "map (monthlyTotalAt ?w5) (refs @ [?x]) = map Some (ts @ [summaryEntry es d i])" .
  with call push u5 arr5 show ?thesis
    by metis
qed

lemma summaryLoopJS_spec:
  assumes e0: "expensesAt w0 eRef = Some es"
    and len: "length (heap w0) \<le> resRef"
  shows "unchanged w0 w \<Longrightarrow> arrayAt w resRef = Some refs \<Longrightarrow>
         map (monthlyTotalAt w) refs = map Some ts \<Longrightarrow>
         \<exists>w' refs'. summaryLoopJS eRef resRef d i w = Some w'
            \<and> unchanged w0 w'
            \<and> arrayAt w' resRef = Some refs'
            \<and> map (monthlyTotalAt w') refs' = map Some (summaryLoop es d i ts)"
proof (induction "6 - i" arbitrary: i w refs ts)
  case 0
  then have i: "\<not> i < 6"
    by simp
  have "summaryLoopJS eRef resRef d i w = Some w"
    by (subst summaryLoopJS.simps) (simp add: i)
  moreover have "summaryLoop es d i ts = ts"
    by (subst summaryLoop.simps) (simp add: i)
  ultimately show ?case
    using "0.prems" by metis
next
  case (Suc n)
  then have i: "i < 6" and n: "n = 6 - (i + 1)"
    by simp_all
  from summaryRoundJS_spec [OF Suc.prems(1) e0 len Suc.prems(2) Suc.prems(3)]
  obtain w' x where
    r: "summaryRoundJS eRef resRef d (int i) w = Some w'" and u: "unchanged w0 w'"
    and a: "arrayAt w' resRef = Some (refs @ [x])"
    and m: "map (monthlyTotalAt w') (refs @ [x]) = map Some (ts @ [summaryEntry es d (int i)])"
    by metis
  from Suc.hyps(1) [OF n u a m] obtain w'' refs' where
    l: "summaryLoopJS eRef resRef d (i + 1) w' = Some w''" and u': "unchanged w0 w''"
    and a': "arrayAt w'' resRef = Some refs'"
    and m': "map (monthlyTotalAt w'') refs'
               = map Some (summaryLoop es d (i + 1) (ts @ [summaryEntry es d (int i)]))"
    by metis
  have "summaryLoopJS eRef resRef d i w = Some w''"
    by (subst summaryLoopJS.simps) (simp add: i r l [simplified])
  moreover have "summaryLoop es d i ts
                   = summaryLoop es d (i + 1) (ts @ [summaryEntry es d (int i)])"
    by (subst summaryLoop.simps) (simp add: i)
  ultimately show ?case
    using u' a' m' by metis
qed

lemma getLastSixMonthsSummaryJS_refines:
  assumes "expensesAt w r = Some es"
  shows "preserves w (getLastSixMonthsSummaryJS r w)"
    and "monthlyTotalsOf (getLastSixMonthsSummaryJS r w)
           = Some (getLastSixMonthsSummary es (clock w))"
proof -
  let ?res = "length (heap w)"
  let ?w1 = "w\<lparr>heap := heap w @ [ArrayObject []]\<rparr>"
  have u1: "unchanged w ?w1"
    by (rule unchanged_append)
  have a1: "arrayAt ?w1 ?res = Some []"
    by (rule arrayAt_new)
  have m1: "map (monthlyTotalAt ?w1) [] = map Some []"
    by simp
  have c1: "clock ?w1 = clock w"
    by simp
  from summaryLoopJS_spec [OF assms order_refl u1 a1 m1] obtain w2 refs where
    l: "summaryLoopJS r ?res (clock w) 0 ?w1 = Some w2" and u2: "unchanged w w2"
    and a2: "arrayAt w2 ?res = Some refs"
    and m2: "map (monthlyTotalAt w2) refs = map Some (summaryLoop es (clock w) 0 [])"
    by metis
  let ?w3 = "store ?res (ArrayObject (rev refs)) w2"
  have reverse: "arrayReverse ?res w2 = Some ?w3"
    by (simp only: arrayReverse_def a2 option.case)
  have call: "getLastSixMonthsSummaryJS r w = Some (?res, ?w3)"
    by (simp only: getLastSixMonthsSummaryJS_def Let_def alloc_def prod.case c1 l option.case
        reverse)
  have u3: "unchanged w ?w3"
    by (rule unchanged_store [OF u2]) simp
  have a3: "arrayAt ?w3 ?res = Some (rev refs)"
    by (rule readers_store_array(2) [OF a2])
  have same: "monthlyTotalAt ?w3 = monthlyTotalAt w2"
    by (rule ext) (rule readers_store_array(1) [OF a2])
  have m3: "map (monthlyTotalAt ?w3) (rev refs) = map Some (getLastSixMonthsSummary es (clock w))"
    by (simp only: same rev_map [symmetric] m2 getLastSixMonthsSummary_def)
  show "preserves w (getLastSixMonthsSummaryJS r w)"
    by (simp add: preserves_def call u3)
  have "monthlyTotalsAt ?w3 ?res = Some (getLastSixMonthsSummary es (clock w))"
    unfolding monthlyTotalsAt_iff using a3 m3 by blast
  then show "monthlyTotalsOf (getLastSixMonthsSummaryJS r w)
          = Some (getLastSixMonthsSummary es (clock w))"
    by (simp add: monthlyTotalsOf_def call)
qed

subsection \<open>The sample worlds\<close>

lemma sampleWorld_contents:
  "expensesAt (sampleWorld now) 3 = Some foodExpenses"
  "budgetAt (sampleWorld now) 4 = Some foodBudget"
  "goalAt (sampleWorld now) 5 = Some sampleGoal"
  "clock (sampleWorld now) = now"
  by (simp_all add: sampleWorld_def foodExpenses_def expensesAt_def arrayAt_def objectAt_def
      expenseAt_def budgetAt_def goalAt_def)

lemma otherWorld_contents:
  "expensesAt (otherWorld now) 2 = Some foodExpenses"
  "budgetAt (otherWorld now) 1 = Some foodBudget"
  "goalAt (otherWorld now) 0 = Some sampleGoal"
  "clock (otherWorld now) = now"
  by (simp_all add: otherWorld_def foodExpenses_def expensesAt_def arrayAt_def objectAt_def
      expenseAt_def budgetAt_def goalAt_def)

subsection \<open>Claims about purity\<close>

text \<open>
  Claim C7, as stated, fails for the rolling summary builder: it has an ambient input, the
  system clock. Two worlds that hold the same objects at the same references, one with the
  clock at 15 March 2024 and one with the clock at 15 April 2024, give two different
  summaries for the same expense array.
\<close>

theorem rolling_summary_reads_clock:
  "heap (sampleWorld march15) = heap (sampleWorld april15)
   \<and> expensesAt (sampleWorld march15) 3 = Some foodExpenses
   \<and> expensesAt (sampleWorld april15) 3 = Some foodExpenses
   \<and> monthlyTotalsOf (getLastSixMonthsSummaryJS 3 (sampleWorld march15))
       \<noteq> monthlyTotalsOf (getLastSixMonthsSummaryJS 3 (sampleWorld april15))"
proof -
  have "heap (sampleWorld march15) = heap (sampleWorld april15)"
    by (simp add: sampleWorld_def)
  moreover have "monthlyTotalsOf (getLastSixMonthsSummaryJS 3 (sampleWorld march15))
                   \<noteq> monthlyTotalsOf (getLastSixMonthsSummaryJS 3 (sampleWorld april15))"
    by (simp add: getLastSixMonthsSummaryJS_refines(2) [OF sampleWorld_contents(1)]
        sampleWorld_contents(4) summary_differs_march_april)
  ultimately show ?thesis
    by (simp add: sampleWorld_contents(1))
qed

text \<open>
  Claim C7, amended: run on the heap, where arrays and objects are passed by reference,
  each aggregation function (\<^verbatim>\<open>filterExpensesByMonth\<close>, \<^verbatim>\<open>calculateMonthlyTotal\<close>,
  \<^verbatim>\<open>calculateExpensesByCategory\<close>) and each progress calculator
  (\<^verbatim>\<open>calculateBudgetProgress\<close>, \<^verbatim>\<open>calculateCategoryBudgetProgress\<close>,
  \<^verbatim>\<open>calculateSavingsProgress\<close>) returns, leaves the clock and every object that existed
  before the call as it was (it only adds new objects), and returns the value that the
  contents of its arguments determine; a second call on arguments with the same contents,
  in any world \<open>v\<close>, at any references, returns the same value. The rolling summary builder
  returns and leaves every existing object as it was too, but its value is determined by
  the contents of the expense array together with the reading of the system clock; a
  second call on the same expenses returns the same summary whenever both clock readings
  show the same year and month and a day of the month up to the 28th.
\<close>

theorem core_functions_pure:
  assumes "expensesAt w r = Some es" and "budgetAt w b = Some budget"
    and "goalAt w g = Some goal"
    and "expensesAt v r' = Some es" and "budgetAt v b' = Some budget"
    and "goalAt v g' = Some goal"
  shows
    "preserves w (filterExpensesByMonthJS r m w)
     \<and> expensesOf (filterExpensesByMonthJS r m w) = Some (filterExpensesByMonth es m)
     \<and> expensesOf (filterExpensesByMonthJS r' m v) = expensesOf (filterExpensesByMonthJS r m w)
     \<and> preserves w (calculateMonthlyTotalJS r m w)
     \<and> valueOf (calculateMonthlyTotalJS r m w) = Some (calculateMonthlyTotal es m)
     \<and> valueOf (calculateMonthlyTotalJS r' m v) = valueOf (calculateMonthlyTotalJS r m w)
     \<and> preserves w (calculateExpensesByCategoryJS r m w)
     \<and> amountsOf (calculateExpensesByCategoryJS r m w) = Some (calculateExpensesByCategory es m)
     \<and> amountsOf (calculateExpensesByCategoryJS r' m v)
         = amountsOf (calculateExpensesByCategoryJS r m w)
     \<and> preserves w (calculateBudgetProgressJS b r w)
     \<and> valueOf (calculateBudgetProgressJS b r w) = Some (calculateBudgetProgress budget es)
     \<and> valueOf (calculateBudgetProgressJS b' r' v) = valueOf (calculateBudgetProgressJS b r w)
     \<and> preserves w (calculateCategoryBudgetProgressJS b r c w)
     \<and> valueOf (calculateCategoryBudgetProgressJS b r c w)
         = Some (calculateCategoryBudgetProgress budget es c)
     \<and> valueOf (calculateCategoryBudgetProgressJS b' r' c v)
         = valueOf (calculateCategoryBudgetProgressJS b r c w)
     \<and> preserves w (calculateSavingsProgressJS g w)
     \<and> valueOf (calculateSavingsProgressJS g w) = Some (calculateSavingsProgress goal)
     \<and> valueOf (calculateSavingsProgressJS g' v) = valueOf (calculateSavingsProgressJS g w)
     \<and> preserves w (getLastSixMonthsSummaryJS r w)
     \<and> monthlyTotalsOf (getLastSixMonthsSummaryJS r w)
         = Some (getLastSixMonthsSummary es (clock w))
     \<and> (getFullYear (clock v) = getFullYear (clock w) \<and> getMonth (clock v) = getMonth (clock w)
          \<and> getDate (clock v) \<le> 28 \<and> getDate (clock w) \<le> 28 \<longrightarrow>
        monthlyTotalsOf (getLastSixMonthsSummaryJS r' v)
          = monthlyTotalsOf (getLastSixMonthsSummaryJS r w))"
proof -
  note ew = assms(1) and bw = assms(2) and gw = assms(3)
    and ev = assms(4) and bv = assms(5) and gv = assms(6)
  have f1: "preserves w (filterExpensesByMonthJS r m w)"
    by (rule filterExpensesByMonthJS_refines(1) [OF ew])
  have f2: "expensesOf (filterExpensesByMonthJS r m w) = Some (filterExpensesByMonth es m)"
    by (rule filterExpensesByMonthJS_refines(2) [OF ew])
  have f3: "expensesOf (filterExpensesByMonthJS r' m v)
              = expensesOf (filterExpensesByMonthJS r m w)"
    by (simp only: filterExpensesByMonthJS_refines(2) [OF ew]
        filterExpensesByMonthJS_refines(2) [OF ev])
  have t1: "preserves w (calculateMonthlyTotalJS r m w)"
    by (rule calculateMonthlyTotalJS_refines(1) [OF ew])
  have t2: "valueOf (calculateMonthlyTotalJS r m w) = Some (calculateMonthlyTotal es m)"
    by (rule calculateMonthlyTotalJS_refines(2) [OF ew])
  have t3: "valueOf (calculateMonthlyTotalJS r' m v) = valueOf (calculateMonthlyTotalJS r m w)"
    by (simp only: calculateMonthlyTotalJS_refines(2) [OF ew]
        calculateMonthlyTotalJS_refines(2) [OF ev])
  have c1: "preserves w (calculateExpensesByCategoryJS r m w)"
    by (rule calculateExpensesByCategoryJS_refines(1) [OF ew])
  have c2: "amountsOf (calculateExpensesByCategoryJS r m w)
              = Some (calculateExpensesByCategory es m)"
    by (rule calculateExpensesByCategoryJS_refines(2) [OF ew])
  have c3: "amountsOf (calculateExpensesByCategoryJS r' m v)
              = amountsOf (calculateExpensesByCategoryJS r m w)"
    by (simp only: calculateExpensesByCategoryJS_refines(2) [OF ew]
        calculateExpensesByCategoryJS_refines(2) [OF ev])
  have b1: "preserves w (calculateBudgetProgressJS b r w)"
    by (rule calculateBudgetProgressJS_refines(1) [OF bw ew])
  have b2: "valueOf (calculateBudgetProgressJS b r w) = Some (calculateBudgetProgress budget es)"
    by (rule calculateBudgetProgressJS_refines(2) [OF bw ew])
  have b3: "valueOf (calculateBudgetProgressJS b' r' v)
              = valueOf (calculateBudgetProgressJS b r w)"
    by (simp only: calculateBudgetProgressJS_refines(2) [OF bw ew]
        calculateBudgetProgressJS_refines(2) [OF bv ev])
  have k1: "preserves w (calculateCategoryBudgetProgressJS b r c w)"
    by (rule calculateCategoryBudgetProgressJS_refines(1) [OF bw ew])
  have k2: "valueOf (calculateCategoryBudgetProgressJS b r c w)
              = Some (calculateCategoryBudgetProgress budget es c)"
    by (rule calculateCategoryBudgetProgressJS_refines(2) [OF bw ew])
  have k3: "valueOf (calculateCategoryBudgetProgressJS b' r' c v)
              = valueOf (calculateCategoryBudgetProgressJS b r c w)"
    by (simp only: calculateCategoryBudgetProgressJS_refines(2) [OF bw ew]
        calculateCategoryBudgetProgressJS_refines(2) [OF bv ev])
  have s1: "preserves w (calculateSavingsProgressJS g w)"
    by (rule calculateSavingsProgressJS_refines(1) [OF gw])
  have s2: "valueOf (calculateSavingsProgressJS g w) = Some (calculateSavingsProgress goal)"
    by (rule calculateSavingsProgressJS_refines(2) [OF gw])
  have s3: "valueOf (calculateSavingsProgressJS g' v) = valueOf (calculateSavingsProgressJS g w)"
    by (simp only: calculateSavingsProgressJS_refines(2) [OF gw]
        calculateSavingsProgressJS_refines(2) [OF gv])
  have l1: "preserves w (getLastSixMonthsSummaryJS r w)"
    by (rule getLastSixMonthsSummaryJS_refines(1) [OF ew])
  have l2: "monthlyTotalsOf (getLastSixMonthsSummaryJS r w)
              = Some (getLastSixMonthsSummary es (clock w))"
    by (rule getLastSixMonthsSummaryJS_refines(2) [OF ew])
  have l3: "getFullYear (clock v) = getFullYear (clock w) \<and> getMonth (clock v) = getMonth (clock w)
              \<and> getDate (clock v) \<le> 28 \<and> getDate (clock w) \<le> 28 \<longrightarrow>
            monthlyTotalsOf (getLastSixMonthsSummaryJS r' v)
              = monthlyTotalsOf (getLastSixMonthsSummaryJS r w)"
  proof
    assume "getFullYear (clock v) = getFullYear (clock w) \<and> getMonth (clock v) = getMonth (clock w)
              \<and> getDate (clock v) \<le> 28 \<and> getDate (clock w) \<le> 28"
    then have "getLastSixMonthsSummary es (clock v) = getLastSixMonthsSummary es (clock w)"
      by (intro summary_same_within_month) simp_all
    then show "monthlyTotalsOf (getLastSixMonthsSummaryJS r' v)
                 = monthlyTotalsOf (getLastSixMonthsSummaryJS r w)"
      by (simp only: getLastSixMonthsSummaryJS_refines(2) [OF ew]
          getLastSixMonthsSummaryJS_refines(2) [OF ev])
  qed
  show ?thesis
    by (intro conjI) (rule f1 f2 f3 t1 t2 t3 c1 c2 c3 b1 b2 b3 k1 k2 k3 s1 s2 s3 l1 l2 l3)+
qed

theorem core_functions_pure_witness:
  "expensesAt (sampleWorld march15) 3 = Some foodExpenses
   \<and> budgetAt (sampleWorld march15) 4 = Some foodBudget
   \<and> goalAt (sampleWorld march15) 5 = Some sampleGoal
   \<and> expensesAt (otherWorld march20) 2 = Some foodExpenses
   \<and> budgetAt (otherWorld march20) 1 = Some foodBudget
   \<and> goalAt (otherWorld march20) 0 = Some sampleGoal
   \<and> heap (otherWorld march20) \<noteq> heap (sampleWorld march15)
   \<and> clock (otherWorld march20) \<noteq> clock (sampleWorld march15)
   \<and> preserves (sampleWorld march15) (filterExpensesByMonthJS 3 ''2024-06'' (sampleWorld march15))
   \<and> expensesOf (filterExpensesByMonthJS 3 ''2024-06'' (sampleWorld march15))
       = Some [sampleExpense 50 food ''2024-06-20'', sampleExpense 30 housing ''2024-06-02'']
   \<and> expensesOf (filterExpensesByMonthJS 2 ''2024-06'' (otherWorld march20))
       = expensesOf (filterExpensesByMonthJS 3 ''2024-06'' (sampleWorld march15))
   \<and> preserves (sampleWorld march15) (calculateMonthlyTotalJS 3 ''2024-06'' (sampleWorld march15))
   \<and> valueOf (calculateMonthlyTotalJS 2 ''2024-06'' (otherWorld march20))
       = valueOf (calculateMonthlyTotalJS 3 ''2024-06'' (sampleWorld march15))
   \<and> preserves (sampleWorld march15)
       (calculateExpensesByCategoryJS 3 ''2024-06'' (sampleWorld march15))
   \<and> amountsOf (calculateExpensesByCategoryJS 2 ''2024-06'' (otherWorld march20))
       = amountsOf (calculateExpensesByCategoryJS 3 ''2024-06'' (sampleWorld march15))
   \<and> preserves (sampleWorld march15) (calculateBudgetProgressJS 4 3 (sampleWorld march15))
   \<and> valueOf (calculateBudgetProgressJS 1 2 (otherWorld march20))
       = valueOf (calculateBudgetProgressJS 4 3 (sampleWorld march15))
   \<and> preserves (sampleWorld march15)
       (calculateCategoryBudgetProgressJS 4 3 food (sampleWorld march15))
   \<and> valueOf (calculateCategoryBudgetProgressJS 1 2 food (otherWorld march20))
       = valueOf (calculateCategoryBudgetProgressJS 4 3 food (sampleWorld march15))
   \<and> preserves (sampleWorld march15) (calculateSavingsProgressJS 5 (sampleWorld march15))
   \<and> valueOf (calculateSavingsProgressJS 0 (otherWorld march20))
       = valueOf (calculateSavingsProgressJS 5 (sampleWorld march15))
   \<and> preserves (sampleWorld march15) (getLastSixMonthsSummaryJS 3 (sampleWorld march15))
   \<and> monthlyTotalsOf (getLastSixMonthsSummaryJS 3 (sampleWorld march15))
       = Some (getLastSixMonthsSummary foodExpenses march15)
   \<and> monthlyTotalsOf (getLastSixMonthsSummaryJS 2 (otherWorld march20))
       = monthlyTotalsOf (getLastSixMonthsSummaryJS 3 (sampleWorld march15))"
proof -
  have different: "heap (otherWorld march20) \<noteq> heap (sampleWorld march15)"
    "clock (otherWorld march20) \<noteq> clock (sampleWorld march15)"
    by (simp_all add: otherWorld_def sampleWorld_def march20_def march15_def foodExpenses_def)
  have clocks: "getFullYear (clock (otherWorld march20)) = getFullYear (clock (sampleWorld march15))
      \<and> getMonth (clock (otherWorld march20)) = getMonth (clock (sampleWorld march15))
      \<and> getDate (clock (otherWorld march20)) \<le> 28 \<and> getDate (clock (sampleWorld march15)) \<le> 28"
    by (simp add: sampleWorld_contents(4) otherWorld_contents(4) march20_def march15_def)
  have june: "filterExpensesByMonth foodExpenses ''2024-06''
                = [sampleExpense 50 food ''2024-06-20'', sampleExpense 30 housing ''2024-06-02'']"
    by (simp add: filterExpensesByMonth_def startsWith_def foodExpenses_def sampleExpense_def)
  note sw = sampleWorld_contents [of march15] and ow = otherWorld_contents [of march20]
  note inst = core_functions_pure [where m = "''2024-06''" and c = food,
      OF sw(1) sw(2) sw(3) ow(1) ow(2) ow(3)]
  show ?thesis
    using inst clocks different
    by (simp only: sampleWorld_contents otherWorld_contents june simp_thms)
qed

end
